theory Spec2Isabelle
  imports Main "HOL-Library.AList" "HOL-Library.Char_ord" "HOL-Library.List_Lexorder"
begin

text \<open>
  A model of \<^verbatim>\<open>src/lib/module-info.ts\<close>: the walk over the declaration files of a
  package (\<^verbatim>\<open>allReferencedFiles\<close>), the module information computed from the files
  found (\<^verbatim>\<open>getModuleInfo\<close>) and the dependencies of the test files
  (\<^verbatim>\<open>getTestDependencies\<close>). Exceptions are values of the type \<open>error\<close>, and a
  function that may throw returns \<open>error + 'a\<close>. Files are read from a finite table; the
  parser is not modelled, a file holds what the parser reads in it. Paths are those of a
  POSIX platform. The walk runs its reads concurrently: the order in which they complete
  is a parameter of the walk, and what is proved of it is proved for every order.
\<close>

section \<open>Strings and paths\<close>

text \<open>
  JavaScript strings are modelled as \<open>string\<close>. \<open>startsWith\<close>, \<open>endsWith\<close> and
  \<open>indexOf\<close> are the methods of \<^verbatim>\<open>String.prototype\<close> the module uses; \<open>indexOf\<close>
  returns \<open>-1\<close> when the character does not occur at or after the start position.
\<close>

definition startsWith :: "string \<Rightarrow> string \<Rightarrow> bool" where
  "startsWith s p = (take (length p) s = p)"

definition endsWith :: "string \<Rightarrow> string \<Rightarrow> bool" where
  "endsWith s p = (length p \<le> length s \<and> drop (length s - length p) s = p)"

fun indexFrom :: "char \<Rightarrow> string \<Rightarrow> int \<Rightarrow> int" where
  "indexFrom c [] i = -1"
| "indexFrom c (x # xs) i = (if x = c then i else indexFrom c xs (i + 1))"

definition indexOf :: "string \<Rightarrow> char \<Rightarrow> int \<Rightarrow> int" where
  "indexOf s c start = (let k = nat start in indexFrom c (drop k s) (int (min k (length s))))"

text \<open>
  The helpers of \<^verbatim>\<open>../util/util\<close> are imported by the module, their bodies are not part
  of it.
\<close>

definition backslash :: char where
  "backslash = CHR 0x5C"

text \<open>Modelled from the spec: \<^verbatim>\<open>joinPaths\<close> of util is missing; the canonical
  forward-slash path representation joins two parts with one slash.\<close>
definition joinPaths :: "string \<Rightarrow> string \<Rightarrow> string" where
  "joinPaths a b = a @ ''/'' @ b"

text \<open>Modelled from the spec: \<^verbatim>\<open>normalizeSlashes\<close> of util is missing; it turns every
  backslash path separator into a forward slash.\<close>
definition normalizeSlashes :: "string \<Rightarrow> string" where
  "normalizeSlashes p = map (\<lambda>c. if c = backslash then CHR ''/'' else c) p"

text \<open>Modelled from the spec: \<^verbatim>\<open>hasWindowsSlashes\<close> of util is missing; a name has
  Windows slashes when it contains a backslash path separator.\<close>
definition hasWindowsSlashes :: "string \<Rightarrow> bool" where
  "hasWindowsSlashes p = (backslash \<in> set p)"

text \<open>
  \<^verbatim>\<open>path.basename\<close>, \<^verbatim>\<open>path.dirname\<close> and \<^verbatim>\<open>path.normalize\<close> are those of the
  platform's POSIX \<^verbatim>\<open>path\<close> module. Both \<open>basename\<close> and \<open>dirname\<close> scan the path
  from its last character towards the first; the scans below run over the reversed
  path. \<open>dirname\<close> never looks at the first character while scanning.
\<close>

definition basename :: "string \<Rightarrow> string" where
  "basename p =
     rev (takeWhile (\<lambda>c. c \<noteq> CHR ''/'') (dropWhile (\<lambda>c. c = CHR ''/'') (rev p)))"

fun dirnameScan :: "string \<Rightarrow> bool \<Rightarrow> string option" where
  "dirnameScan [] matchedSlash = None"
| "dirnameScan (c # cs) matchedSlash =
     (if c = CHR ''/'' then (if \<not> matchedSlash then Some cs else dirnameScan cs matchedSlash)
      else dirnameScan cs False)"

definition dirname :: "string \<Rightarrow> string" where
  "dirname p =
     (case p of
        [] \<Rightarrow> ''.''
      | c0 # rest \<Rightarrow>
          (case dirnameScan (rev rest) True of
             None \<Rightarrow> (if c0 = CHR ''/'' then ''/'' else ''.'')
           | Some cs \<Rightarrow> (if c0 = CHR ''/'' \<and> cs = [] then ''//'' else c0 # rev cs)))"

text \<open>
  \<open>splitSlash\<close> cuts a path at every slash; \<open>normalizeSegments\<close> is the segment walk of
  \<^verbatim>\<open>path.normalize\<close>: empty segments and \<open>.\<close> are dropped, \<open>..\<close> removes the last kept
  segment unless that is itself \<open>..\<close> (or nothing is kept), in which case it is kept
  when the path is relative.
\<close>

fun splitSlash :: "string \<Rightarrow> string list" where
  "splitSlash [] = [[]]"
| "splitSlash (c # cs) =
     (if c = CHR ''/'' then [] # splitSlash cs
      else (case splitSlash cs of [] \<Rightarrow> [[c]] | s # ss \<Rightarrow> (c # s) # ss))"

fun normalizeSegments :: "bool \<Rightarrow> string list \<Rightarrow> string list \<Rightarrow> string list" where
  "normalizeSegments allowAboveRoot res [] = res"
| "normalizeSegments allowAboveRoot res (seg # segs) =
     (if seg = [] \<or> seg = ''.'' then normalizeSegments allowAboveRoot res segs
      else if seg = ''..'' then
        (if res \<noteq> [] \<and> last res \<noteq> ''..'' then normalizeSegments allowAboveRoot (butlast res) segs
         else if allowAboveRoot then normalizeSegments allowAboveRoot (res @ [seg]) segs
         else normalizeSegments allowAboveRoot res segs)
      else normalizeSegments allowAboveRoot (res @ [seg]) segs)"

fun joinSlash :: "string list \<Rightarrow> string" where
  "joinSlash [] = []"
| "joinSlash [s] = s"
| "joinSlash (s # t # ss) = s @ ''/'' @ joinSlash (t # ss)"

definition normalize :: "string \<Rightarrow> string" where
  "normalize p =
     (if p = [] then ''.''
      else
        let isAbsolute = (hd p = CHR ''/'');
            trailingSeparator = (last p = CHR ''/'');
            q = joinSlash (normalizeSegments (\<not> isAbsolute) [] (splitSlash p))
        in if q = [] then (if isAbsolute then ''/'' else if trailingSeparator then ''./'' else ''.'')
           else (if isAbsolute then ''/'' else []) @ q @ (if trailingSeparator then ''/'' else []))"

section \<open>Syntax trees\<close>

text \<open>
  The part of the TypeScript syntax tree the module inspects. A module specifier and the
  argument of \<^verbatim>\<open>require\<close> are expressions, of which only string literals are told
  apart. A module declaration has a name, an identifier or a string literal, and an
  optional body: a block of statements or, for \<^verbatim>\<open>namespace A.B { }\<close>, another module
  declaration. Every statement kind the module never names is an \<open>OtherStatement\<close>,
  which carries the name of its kind.
\<close>

datatype expression = StringLiteralExpression string | OtherExpression

datatype module_reference = ExternalModuleReference "expression option" | EntityName

datatype decl_name = Identifier string | StringLiteral string

datatype binding_name = BindingIdentifier string | BindingPattern

datatype statement =
    ImportDeclaration expression
  | ExportDeclaration "expression option"
  | ImportEqualsDeclaration module_reference
  | ModuleDeclaration module_declaration
  | VariableStatement "binding_name list"
  | EnumDeclaration string
  | ClassDeclaration "string option"
  | FunctionDeclaration "string option"
  | InterfaceDeclaration
  | TypeAliasDeclaration
  | NamespaceExportDeclaration string
  | OtherStatement string
and module_declaration = ModuleDecl decl_name "module_body option"
and module_body = ModuleBlock "statement list" | NamespaceBody module_declaration

text \<open>
  What the parser returns for a file: the targets of its \<^verbatim>\<open><reference path>\<close> and
  \<^verbatim>\<open><reference types>\<close> directives, its top-level statements, and whether the parser
  found it to be an external module (\<^verbatim>\<open>ts.isExternalModule\<close>).
\<close>

record parsed =
  referencedFiles :: "string list"
  typeReferenceDirectives :: "string list"
  statements :: "statement list"
  isExternalModule :: bool

record source_file = parsed +
  fileName :: string

text \<open>
  \<^verbatim>\<open>ts.createSourceFile\<close> parses the text of a file. The text of a file is modelled by
  what the parser reads in it (a \<open>parsed\<close>); the source file made of it carries the file
  name it was created with.
\<close>

definition createSourceFile :: "string \<Rightarrow> parsed \<Rightarrow> source_file" where
  "createSourceFile filename content =
     \<lparr>referencedFiles = referencedFiles content,
      typeReferenceDirectives = typeReferenceDirectives content,
      statements = statements content,
      isExternalModule = isExternalModule content,
      fileName = filename\<rparr>"

text \<open>
  A JavaScript \<^verbatim>\<open>Set\<close> is modelled by the list of its elements in insertion order, a
  \<^verbatim>\<open>Map\<close> by the association list of its entries in insertion order
  (\<^verbatim>\<open>Map.prototype.set\<close> is \<open>AList.update\<close>).
\<close>

definition setAdd :: "'a \<Rightarrow> 'a list \<Rightarrow> 'a list" where
  "setAdd x xs = (if x \<in> set xs then xs else xs @ [x])"

section \<open>Errors\<close>

datatype error =
    ReadFailure string string
  | IllegalParentReference string string string
  | WindowsSlashes string string
  | TypeError
  | ShorthandAmbientModule
  | UnrecognizedNamespaceStatement string
  | AssertionError
  | TestPathReference string string
  | RedundantTestReference string string
  | SelfReferencingTest string

section \<open>Imports\<close>

text \<open>
  \<^verbatim>\<open>imports\<close> is a generator: it yields strings and may throw in between. Its model
  returns the strings yielded so far together with the error that ended it, if any.
  \<open>genAppend\<close> runs one generator after another.
\<close>

type_synonym 'a gen = "'a list \<times> error option"

fun genAppend :: "'a gen \<Rightarrow> 'a gen \<Rightarrow> 'a gen" where
  "genAppend (xs, Some e) g = (xs, Some e)"
| "genAppend (xs, None) (ys, r) = (xs @ ys, r)"

text \<open>
  \<^verbatim>\<open>parseRequire\<close> builds the message of its error with \<^verbatim>\<open>reference.getText()\<close>. The
  source files are created without parent pointers, so the node cannot find the text of
  its file, and the call throws a type error before the error can be made.
\<close>

fun parseRequire :: "expression option \<Rightarrow> error + string" where
  "parseRequire (Some (StringLiteralExpression t)) = Inr t"
| "parseRequire _ = Inl TypeError"

text \<open>
  A string-named module declaration passes its body to \<^verbatim>\<open>imports\<close> as a block. When
  there is no body, or the body is a module declaration, there are no statements to read
  and the JavaScript runtime throws a type error.
\<close>

fun imports' :: "statement list \<Rightarrow> string gen"
and importsNode :: "statement \<Rightarrow> string gen" where
  "imports' [] = ([], None)"
| "imports' (node # rest) = genAppend (importsNode node) (imports' rest)"
| "importsNode (ImportDeclaration (StringLiteralExpression t)) = ([t], None)"
| "importsNode (ImportDeclaration OtherExpression) = ([], None)"
| "importsNode (ExportDeclaration (Some (StringLiteralExpression t))) = ([t], None)"
| "importsNode (ExportDeclaration (Some OtherExpression)) = ([], None)"
| "importsNode (ExportDeclaration None) = ([], None)"
| "importsNode (ImportEqualsDeclaration (ExternalModuleReference e)) =
     (case parseRequire e of Inl err \<Rightarrow> ([], Some err) | Inr t \<Rightarrow> ([t], None))"
| "importsNode (ImportEqualsDeclaration EntityName) = ([], None)"
| "importsNode (ModuleDeclaration (ModuleDecl (StringLiteral n) (Some (ModuleBlock body)))) =
     imports' body"
| "importsNode (ModuleDeclaration (ModuleDecl (StringLiteral n) (Some (NamespaceBody d)))) =
     ([], Some TypeError)"
| "importsNode (ModuleDeclaration (ModuleDecl (StringLiteral n) None)) = ([], Some TypeError)"
| "importsNode (ModuleDeclaration (ModuleDecl (Identifier n) b)) = ([], None)"
| "importsNode (VariableStatement ds) = ([], None)"
| "importsNode (EnumDeclaration n) = ([], None)"
| "importsNode (ClassDeclaration n) = ([], None)"
| "importsNode (FunctionDeclaration n) = ([], None)"
| "importsNode InterfaceDeclaration = ([], None)"
| "importsNode TypeAliasDeclaration = ([], None)"
| "importsNode (NamespaceExportDeclaration n) = ([], None)"
| "importsNode (OtherStatement k) = ([], None)"

section \<open>Value namespaces\<close>

text \<open>
  \<open>someDeclaresValue\<close> is \<^verbatim>\<open>statements.some(statementDeclaresValue)\<close>: it stops at the
  first statement that declares a value, and at the first that throws.
\<close>

fun isValueNamespace :: "module_declaration \<Rightarrow> error + bool"
and someDeclaresValue :: "statement list \<Rightarrow> error + bool"
and statementDeclaresValue :: "statement \<Rightarrow> error + bool" where
  "isValueNamespace (ModuleDecl n None) = Inl ShorthandAmbientModule"
| "isValueNamespace (ModuleDecl n (Some (NamespaceBody ns))) = isValueNamespace ns"
| "isValueNamespace (ModuleDecl n (Some (ModuleBlock stmts))) = someDeclaresValue stmts"
| "someDeclaresValue [] = Inr False"
| "someDeclaresValue (s # rest) =
     (case statementDeclaresValue s of
        Inl e \<Rightarrow> Inl e
      | Inr b \<Rightarrow> (if b then Inr True else someDeclaresValue rest))"
| "statementDeclaresValue (VariableStatement ds) = Inr True"
| "statementDeclaresValue (ClassDeclaration n) = Inr True"
| "statementDeclaresValue (FunctionDeclaration n) = Inr True"
| "statementDeclaresValue (EnumDeclaration n) = Inr True"
| "statementDeclaresValue (ModuleDeclaration ns) = isValueNamespace ns"
| "statementDeclaresValue InterfaceDeclaration = Inr False"
| "statementDeclaresValue TypeAliasDeclaration = Inr False"
| "statementDeclaresValue (ImportEqualsDeclaration r) = Inr False"
| "statementDeclaresValue (ImportDeclaration e) = Inl (UnrecognizedNamespaceStatement ''ImportDeclaration'')"
| "statementDeclaresValue (ExportDeclaration e) = Inl (UnrecognizedNamespaceStatement ''ExportDeclaration'')"
| "statementDeclaresValue (NamespaceExportDeclaration n) =
     Inl (UnrecognizedNamespaceStatement ''NamespaceExportDeclaration'')"
| "statementDeclaresValue (OtherStatement k) = Inl (UnrecognizedNamespaceStatement k)"

section \<open>Module names and dependency roots\<close>

definition assertNoWindowsSlashes :: "string \<Rightarrow> string \<Rightarrow> error + string" where
  "assertNoWindowsSlashes packageName fileName' =
     (if hasWindowsSlashes fileName' then Inl (WindowsSlashes packageName fileName')
      else Inr fileName')"

definition withoutExtension :: "string \<Rightarrow> string \<Rightarrow> error + string" where
  "withoutExtension str ext =
     (if endsWith str ext then Inr (take (length str - length ext) str) else Inl AssertionError)"

definition properModuleName :: "string \<Rightarrow> string \<Rightarrow> error + string" where
  "properModuleName folderName fileName' =
     (case (if basename fileName' = ''index.d.ts'' then Inr (dirname fileName')
            else withoutExtension fileName' ''.d.ts'') of
        Inl e \<Rightarrow> Inl e
      | Inr part \<Rightarrow> Inr (if part = ''.'' then folderName else joinPaths folderName part))"

definition rootName :: "string \<Rightarrow> string" where
  "rootName importText =
     (let slash = indexOf importText (CHR ''/'') 0;
          slash = (if startsWith importText ''@'' then indexOf importText (CHR ''/'') (slash + 1)
                   else slash)
      in if slash = -1 then importText else take (nat slash) importText)"

fun statementExports :: "statement \<Rightarrow> bool" where
  "statementExports (ImportEqualsDeclaration r) = False"
| "statementExports (ImportDeclaration e) = False"
| "statementExports (ModuleDeclaration (ModuleDecl (Identifier n) b)) = True"
| "statementExports (ModuleDeclaration (ModuleDecl (StringLiteral n) b)) = False"
| "statementExports s = True"

definition sourceFileExportsSomething :: "source_file \<Rightarrow> bool" where
  "sourceFileExportsSomething sourceFile = list_ex statementExports (statements sourceFile)"

section \<open>Reading files\<close>

text \<open>
  Modelled from the spec: \<^verbatim>\<open>readFileAndThrowOnBOM\<close> of the definition parser is missing;
  it is the injected read capability, which returns the text of a file of the directory
  or fails (the file cannot be read, or it starts with a byte-order mark). The files
  that can be read are a finite table from the path handed to the read, relative to the
  directory, to the text; every other read fails.
\<close>

type_synonym file_system = "(string \<times> parsed) list"

definition readFileAndThrowOnBOM :: "file_system \<Rightarrow> string \<Rightarrow> string \<Rightarrow> error + parsed" where
  "readFileAndThrowOnBOM fs directory filename =
     (case map_of fs filename of
        None \<Rightarrow> Inl (ReadFailure directory filename)
      | Some content \<Rightarrow> Inr content)"

text \<open>
  \<^verbatim>\<open>console.error\<close> is the one effect besides reading: the functions that may write to
  the console return the lines written, in order, next to their outcome.
\<close>

definition cannotBeRead :: "string \<Rightarrow> string \<Rightarrow> string \<Rightarrow> string" where
  "cannotBeRead directory referencedFrom referenceText =
     ''In '' @ directory @ '', '' @ referencedFrom @ '' references '' @ referenceText
       @ '', which can'' @ [CHR 0x27] @ ''t be read.''"

definition readFileAndReportErrors ::
  "file_system \<Rightarrow> string \<Rightarrow> string \<Rightarrow> string \<Rightarrow> string \<Rightarrow> string list \<times> (error + parsed)" where
  "readFileAndReportErrors fs referencedFrom directory referenceText filename =
     (case readFileAndThrowOnBOM fs directory filename of
        Inr content \<Rightarrow> ([], Inr content)
      | Inl err \<Rightarrow> ([cannotBeRead directory referencedFrom referenceText], Inl err))"

definition resolveModule ::
  "file_system \<Rightarrow> string \<Rightarrow> string \<Rightarrow> string \<Rightarrow> string list \<times> (error + string \<times> parsed)" where
  "resolveModule fs referencedFrom directory filename =
     (let dts = filename @ ''.d.ts'' in
      case readFileAndThrowOnBOM fs directory dts of
        Inr content \<Rightarrow> ([], Inr (dts, content))
      | Inl _ \<Rightarrow>
          (let index = joinPaths (if endsWith filename ''/''
                                  then take (length filename - 1) filename else filename)
                         ''index.d.ts'';
               resolvedFilename = (if index = ''./index.d.ts'' then ''index.d.ts'' else index)
           in case readFileAndReportErrors fs referencedFrom directory filename index of
                (out, Inl err) \<Rightarrow> (out, Inl err)
              | (out, Inr content) \<Rightarrow> (out, Inr (resolvedFilename, content))))"

section \<open>The reference graph\<close>

record reference =
  exact :: bool
  text' :: string

definition addReference :: "string \<Rightarrow> string \<Rightarrow> string \<Rightarrow> reference \<Rightarrow> error + reference" where
  "addReference srcFileName subDirectory directory r =
     (case assertNoWindowsSlashes srcFileName (text' r) of
        Inl e \<Rightarrow> Inl e
      | Inr t \<Rightarrow>
          (let full = normalizeSlashes (normalize (joinPaths subDirectory t)) in
           if startsWith full ''..'' then Inl (IllegalParentReference directory srcFileName (text' r))
           else Inr \<lparr>exact = exact r, text' = full\<rparr>))"

fun addReferences :: "string \<Rightarrow> string \<Rightarrow> string \<Rightarrow> reference list \<Rightarrow> error + reference list" where
  "addReferences srcFileName subDirectory directory [] = Inr []"
| "addReferences srcFileName subDirectory directory (r # rs) =
     (case addReference srcFileName subDirectory directory r of
        Inl e \<Rightarrow> Inl e
      | Inr r' \<Rightarrow>
          (case addReferences srcFileName subDirectory directory rs of
             Inl e \<Rightarrow> Inl e
           | Inr rs' \<Rightarrow> Inr (r' # rs')))"

text \<open>
  \<^verbatim>\<open>referencedFiles\<close> is a generator that \<^verbatim>\<open>recur\<close> drains with \<^verbatim>\<open>Array.from\<close>: the
  outcome is the array of all its references, or the first error thrown on the way. The
  path references come first, then the relative imports in the order \<^verbatim>\<open>imports\<close>
  yields them; an error that ends \<^verbatim>\<open>imports\<close> is thrown after the imports yielded
  before it have been added.
\<close>

definition rawReferences :: "source_file \<Rightarrow> reference list \<times> error option" where
  "rawReferences src =
     (case imports' (statements src) of
        (ts, err) \<Rightarrow>
          (map (\<lambda>f. \<lparr>exact = True, text' = f\<rparr>) (referencedFiles src)
             @ map (\<lambda>t. \<lparr>exact = False, text' = t\<rparr>) (filter (\<lambda>t. startsWith t ''.'') ts),
           err))"

definition referencedFiles' :: "source_file \<Rightarrow> string \<Rightarrow> string \<Rightarrow> error + reference list" where
  "referencedFiles' src subDirectory directory =
     (case rawReferences src of
        (raw, err) \<Rightarrow>
          (case addReferences (fileName src) subDirectory directory raw of
             Inl e \<Rightarrow> Inl e
           | Inr refs \<Rightarrow> (case err of Some e \<Rightarrow> Inl e | None \<Rightarrow> Inr refs)))"

text \<open>The resolution step of \<^verbatim>\<open>recur\<close>: the file name a reference resolves to and the
  text read there.\<close>

definition resolveReference ::
  "file_system \<Rightarrow> string \<Rightarrow> string \<Rightarrow> reference \<Rightarrow> string list \<times> (error + string \<times> parsed)" where
  "resolveReference fs referencedFrom directory r =
     (if exact r then
        (case readFileAndReportErrors fs referencedFrom directory (text' r) (text' r) of
           (out, Inl err) \<Rightarrow> (out, Inl err)
         | (out, Inr content) \<Rightarrow> (out, Inr (text' r, content)))
      else resolveModule fs referencedFrom directory (text' r))"

text \<open>
  The references every file of the table can give rise to, under the names a read of
  it can be recorded with: a bound on the references \<^verbatim>\<open>recur\<close> can ever meet.
\<close>

definition textsOf :: "string \<Rightarrow> string \<Rightarrow> parsed \<Rightarrow> string set" where
  "textsOf directory n content =
     (case referencedFiles' (createSourceFile n content) (dirname n) directory of
        Inl e \<Rightarrow> {}
      | Inr refs \<Rightarrow> text' ` set refs)"

definition allTexts :: "file_system \<Rightarrow> string \<Rightarrow> string set" where
  "allTexts fs directory =
     (\<Union>(k, content) \<in> set fs. textsOf directory k content \<union> textsOf directory ''index.d.ts'' content)"

text \<open>
  \<^verbatim>\<open>recur\<close> is an asynchronous function. A call runs at once up to its first read: it
  returns if the text of the reference has been seen, and otherwise marks the text as
  seen and starts reading; the call is then in flight. \<open>beginAll\<close> is
  \<^verbatim>\<open>refs.map(ref => recur(from, ref))\<close> up to that point: the calls are begun in the
  order of the array, before any of their reads completes. The state is
  \<^verbatim>\<open>seenReferences\<close> and the calls in flight, each the referencing file and the
  reference.
\<close>

fun beginAll ::
  "string \<Rightarrow> reference list \<Rightarrow> string list \<times> (string \<times> reference) list
     \<Rightarrow> string list \<times> (string \<times> reference) list" where
  "beginAll referencedFrom [] st = st"
| "beginAll referencedFrom (r # rs) (seenReferences, inFlight) =
     beginAll referencedFrom rs
       (if text' r \<in> set seenReferences then (seenReferences, inFlight)
        else (seenReferences @ [text' r], inFlight @ [(referencedFrom, r)]))"

text \<open>
  The reads of the calls in flight complete in an order the program does not control. A
  scheduler names, for the texts seen and the calls in flight, the call that completes
  next, by its position in the list (taken modulo the length of the list). As every step
  adds a seen text or removes a call in flight, no two steps of a walk ask the scheduler
  the same question: every order of completion is the choice of some scheduler.
  \<open>firstStarted\<close> completes the calls in the order they were begun.
\<close>

type_synonym scheduler = "string list \<Rightarrow> (string \<times> reference) list \<Rightarrow> nat"

definition firstStarted :: scheduler where
  "firstStarted seenReferences inFlight = 0"

definition without :: "nat \<Rightarrow> 'a list \<Rightarrow> 'a list" where
  "without i xs = take i xs @ drop (Suc i) xs"

text \<open>The number of reference texts that can be met and have not been seen.\<close>

definition unseen :: "file_system \<Rightarrow> string \<Rightarrow> string list \<Rightarrow> nat" where
  "unseen fs directory seenReferences = card (allTexts fs directory - set seenReferences)"

text \<open>
  The walk: while calls are in flight, the one the scheduler names completes. Its file
  is parsed and recorded in \<^verbatim>\<open>all\<close>, the references of the file are collected, and a
  call is begun for each. A read that fails, or an error in collecting the references,
  rejects the call, and with it every \<^verbatim>\<open>Promise.all\<close> above it: the first error in
  the order of completion is the error of the walk. What the walk writes to the console
  is not kept.
\<close>

function recur ::
  "scheduler \<Rightarrow> file_system \<Rightarrow> string \<Rightarrow> string list \<times> (string \<times> source_file) list
     \<Rightarrow> (string \<times> reference) list \<Rightarrow> error + string list \<times> (string \<times> source_file) list" where
  "recur sched fs directory (seenReferences, all') [] = Inr (seenReferences, all')"
| "recur sched fs directory (seenReferences, all') (p # ps) =
     (let i = sched seenReferences (p # ps) mod length (p # ps);
          referencedFrom = fst ((p # ps) ! i);
          r = snd ((p # ps) ! i)
      in case snd (resolveReference fs referencedFrom directory r) of
           Inl e \<Rightarrow> Inl e
         | Inr (resolvedFilename, content) \<Rightarrow>
             (let src = createSourceFile resolvedFilename content in
              case referencedFiles' src (dirname resolvedFilename) directory of
                Inl e \<Rightarrow> Inl e
              | Inr refs \<Rightarrow>
                  (case beginAll resolvedFilename refs (seenReferences, without i (p # ps)) of
                     (seenReferences', inFlight) \<Rightarrow>
                       recur sched fs directory
                         (seenReferences', AList.update resolvedFilename src all') inFlight)))"
  by pat_completeness auto

text \<open>
  The walk ends on every table of files and for every scheduler, cyclic references
  included: each step either marks a text as seen that was not, of the finitely many
  that can be met, or leaves one call less in flight.
\<close>

lemma finite_textsOf: "finite (textsOf directory n content)"
  by (simp add: textsOf_def split: sum.splits)

lemma finite_allTexts: "finite (allTexts fs directory)"
  by (auto simp: allTexts_def finite_textsOf)

lemma resolveReference_table:
  assumes "snd (resolveReference fs referencedFrom directory r) = Inr (n, content)"
  shows "\<exists>k. (k, content) \<in> set fs \<and> (n = k \<or> n = ''index.d.ts'')"
  using assms
  by (auto simp: resolveReference_def resolveModule_def readFileAndReportErrors_def
      readFileAndThrowOnBOM_def Let_def split: if_splits option.splits sum.splits prod.splits
      dest: map_of_SomeD)

lemma resolveReference_texts:
  assumes "snd (resolveReference fs referencedFrom directory r) = Inr (n, content)"
  shows "textsOf directory n content \<subseteq> allTexts fs directory"
proof -
  from resolveReference_table [OF assms] obtain k
    where k: "(k, content) \<in> set fs" and n: "n = k \<or> n = ''index.d.ts''" by blast
  from n show ?thesis
  proof
    assume "n = k"
    with k show ?thesis unfolding allTexts_def by blast
  next
    assume "n = ''index.d.ts''"
    with k show ?thesis unfolding allTexts_def by blast
  qed
qed

lemma beginAll_seen:
  "set (fst (beginAll referencedFrom rs (seen, inFlight))) = set seen \<union> text' ` set rs"
  by (induction rs arbitrary: seen inFlight) auto

lemma beginAll_none:
  "text' ` set rs \<subseteq> set seen \<Longrightarrow> beginAll referencedFrom rs (seen, inFlight) = (seen, inFlight)"
  by (induction rs arbitrary: seen inFlight) auto

lemma length_without: "i < length xs \<Longrightarrow> length (without i xs) < length xs"
  by (simp add: without_def)

lemma unseen_step:
  assumes "text' ` set rs \<subseteq> allTexts fs directory"
    and "beginAll referencedFrom rs (seen, inFlight) = (seen', inFlight')"
  shows "unseen fs directory seen' < unseen fs directory seen
       \<or> (unseen fs directory seen' = unseen fs directory seen \<and> inFlight' = inFlight)"
proof (cases "text' ` set rs \<subseteq> set seen")
  case True
  from beginAll_none [OF True, of referencedFrom inFlight] assms(2) show ?thesis by simp
next
  case False
  from beginAll_seen [of referencedFrom rs seen inFlight] assms(2)
  have s: "set seen' = set seen \<union> text' ` set rs" by simp
  have "allTexts fs directory - set seen' \<subset> allTexts fs directory - set seen"
    using False assms(1) s by auto
  then have "unseen fs directory seen' < unseen fs directory seen"
    unfolding unseen_def by (intro psubset_card_mono) (simp_all add: finite_allTexts)
  then show ?thesis by simp
qed

termination recur
proof (relation "measures [\<lambda>(sched, fs, directory, st, inFlight). unseen fs directory (fst st),
                           \<lambda>(sched, fs, directory, st, inFlight). length inFlight]", goal_cases)
  case 1
  show ?case by simp
next
  case (2 sched fs directory seenReferences all' p ps i referencedFrom r b resolvedFilename content
      src refs seenReferences' inFlight)
  have t: "text' ` set refs \<subseteq> allTexts fs directory"
    using resolveReference_texts [of fs referencedFrom directory r resolvedFilename content] 2
    by (simp add: textsOf_def)
  have b: "beginAll resolvedFilename refs (seenReferences, without i (p # ps))
             = (seenReferences', inFlight)"
    using 2 by simp
  have "i < length (p # ps)" using 2 by simp
  from length_without [OF this] unseen_step [OF t b] show ?case by auto
qed

definition allReferencedFiles ::
  "scheduler \<Rightarrow> file_system \<Rightarrow> string \<Rightarrow> string list \<Rightarrow> error + (string \<times> source_file) list" where
  "allReferencedFiles sched fs directory entryFilenames =
     (case beginAll ''tsconfig.json''
             (map (\<lambda>filename. \<lparr>exact = True, text' = filename\<rparr>) entryFilenames)
             ([], []) of
        (seenReferences, inFlight) \<Rightarrow>
          (case recur sched fs directory (seenReferences, []) inFlight of
             Inl e \<Rightarrow> Inl e
           | Inr (seenReferences', all') \<Rightarrow> Inr all'))"

section \<open>Module information\<close>

record module_info =
  declFiles :: "string list"
  dependencies :: "string list"
  declaredModules :: "string list"
  globals :: "string list"

definition addDependency :: "string \<Rightarrow> string \<Rightarrow> string list \<Rightarrow> string list" where
  "addDependency packageName dependency deps =
     (if dependency \<noteq> packageName then setAdd dependency deps else deps)"

definition addImport :: "string \<Rightarrow> string \<Rightarrow> string list \<Rightarrow> string list" where
  "addImport packageName ref deps =
     (if \<not> startsWith ref ''.'' then addDependency packageName (rootName ref) deps else deps)"

fun bindingGlobals :: "binding_name list \<Rightarrow> string list \<Rightarrow> string list" where
  "bindingGlobals [] globs = globs"
| "bindingGlobals (BindingIdentifier t # ds) globs = bindingGlobals ds (setAdd t globs)"
| "bindingGlobals (BindingPattern # ds) globs = bindingGlobals ds globs"

text \<open>The body of the loop over the statements of a file that is not an external
  module; the state is \<^verbatim>\<open>declaredModules\<close> and \<^verbatim>\<open>globals\<close>.\<close>

fun scriptStatement ::
  "string \<Rightarrow> statement \<Rightarrow> string list \<times> string list \<Rightarrow> error + string list \<times> string list" where
  "scriptStatement packageName (ModuleDeclaration (ModuleDecl (StringLiteral n) b)) (mods, globs) =
     (case assertNoWindowsSlashes packageName n of
        Inl e \<Rightarrow> Inl e
      | Inr m \<Rightarrow> Inr (mods @ [m], globs))"
| "scriptStatement packageName (ModuleDeclaration (ModuleDecl (Identifier n) b)) (mods, globs) =
     (case isValueNamespace (ModuleDecl (Identifier n) b) of
        Inl e \<Rightarrow> Inl e
      | Inr v \<Rightarrow> Inr (mods, if v then setAdd n globs else globs))"
| "scriptStatement packageName (VariableStatement ds) (mods, globs) =
     Inr (mods, bindingGlobals ds globs)"
| "scriptStatement packageName (EnumDeclaration n) (mods, globs) = Inr (mods, setAdd n globs)"
| "scriptStatement packageName (ClassDeclaration (Some n)) (mods, globs) = Inr (mods, setAdd n globs)"
| "scriptStatement packageName (ClassDeclaration None) (mods, globs) = Inr (mods, globs)"
| "scriptStatement packageName (FunctionDeclaration (Some n)) (mods, globs) = Inr (mods, setAdd n globs)"
| "scriptStatement packageName (FunctionDeclaration None) (mods, globs) = Inr (mods, globs)"
| "scriptStatement packageName s (mods, globs) = Inr (mods, globs)"

fun scriptStatements ::
  "string \<Rightarrow> statement list \<Rightarrow> string list \<times> string list \<Rightarrow> error + string list \<times> string list" where
  "scriptStatements packageName [] st = Inr st"
| "scriptStatements packageName (node # rest) st =
     (case scriptStatement packageName node st of
        Inl e \<Rightarrow> Inl e
      | Inr st' \<Rightarrow> scriptStatements packageName rest st')"

fun namespaceExportName :: "statement \<Rightarrow> string option" where
  "namespaceExportName (NamespaceExportDeclaration n) = Some n"
| "namespaceExportName s = None"

text \<open>The declared modules and globals of one source file, added to those found so far.\<close>

definition declarations ::
  "string \<Rightarrow> source_file \<Rightarrow> string list \<times> string list \<Rightarrow> error + string list \<times> string list" where
  "declarations packageName sourceFile st =
     (if isExternalModule sourceFile then
        (if sourceFileExportsSomething sourceFile then
           (case properModuleName packageName (fileName sourceFile) of
              Inl e \<Rightarrow> Inl e
            | Inr m \<Rightarrow>
                Inr (fst st @ [m],
                     (case List.find (\<lambda>s. namespaceExportName s \<noteq> None) (statements sourceFile) of
                        Some (NamespaceExportDeclaration n) \<Rightarrow> setAdd n (snd st)
                      | _ \<Rightarrow> snd st)))
         else Inr st)
      else scriptStatements packageName (statements sourceFile) st)"

text \<open>
  The body of the loop of \<^verbatim>\<open>getModuleInfo\<close> over the source files; the state is
  \<^verbatim>\<open>dependencies\<close>, \<^verbatim>\<open>declaredModules\<close> and \<^verbatim>\<open>globals\<close>. An error that ends
  \<^verbatim>\<open>imports\<close> is thrown once the imports yielded before it have been added.
\<close>

definition sourceFileInfo ::
  "string \<Rightarrow> source_file \<Rightarrow> string list \<times> string list \<times> string list
     \<Rightarrow> error + string list \<times> string list \<times> string list" where
  "sourceFileInfo packageName sourceFile st =
     (case imports' (statements sourceFile) of
        (refs, Some e) \<Rightarrow> Inl e
      | (refs, None) \<Rightarrow>
          (let deps = fold (addDependency packageName) (typeReferenceDirectives sourceFile)
                        (fold (addImport packageName) refs (fst st))
           in case declarations packageName sourceFile (snd st) of
                Inl e \<Rightarrow> Inl e
              | Inr st' \<Rightarrow> Inr (deps, st')))"

fun sourceFilesInfo ::
  "string \<Rightarrow> source_file list \<Rightarrow> string list \<times> string list \<times> string list
     \<Rightarrow> error + string list \<times> string list \<times> string list" where
  "sourceFilesInfo packageName [] st = Inr st"
| "sourceFilesInfo packageName (sourceFile # rest) st =
     (case sourceFileInfo packageName sourceFile st of
        Inl e \<Rightarrow> Inl e
      | Inr st' \<Rightarrow> sourceFilesInfo packageName rest st')"

text \<open>Modelled from the spec: \<^verbatim>\<open>sort\<close> of util is missing; it gives the stable, sorted
  presentation of the file names and of the globals.\<close>
definition sortStrings :: "string list \<Rightarrow> string list" where
  "sortStrings xs = sort xs"

definition getModuleInfo ::
  "scheduler \<Rightarrow> file_system \<Rightarrow> string \<Rightarrow> string \<Rightarrow> string list \<Rightarrow> error + module_info" where
  "getModuleInfo sched fs packageName directory allEntryFilenames =
     (case allReferencedFiles sched fs directory allEntryFilenames of
        Inl e \<Rightarrow> Inl e
      | Inr all' \<Rightarrow>
          (case sourceFilesInfo packageName (map snd all') ([], [], []) of
             Inl e \<Rightarrow> Inl e
           | Inr (deps, mods, globs) \<Rightarrow>
               Inr \<lparr>declFiles = sortStrings (map fst all'), dependencies = deps,
                    declaredModules = mods, globals = sortStrings globs\<rparr>))"

section \<open>Test dependencies\<close>

text \<open>\<^verbatim>\<open>path.join\<close> of two parts: the parts that are not empty, joined by a slash and
  normalized.\<close>

definition pathJoin :: "string \<Rightarrow> string \<Rightarrow> string" where
  "pathJoin a b = normalize (if a = [] then b else if b = [] then a else a @ ''/'' @ b)"

fun testTypeReferences ::
  "string \<Rightarrow> string \<Rightarrow> string list \<Rightarrow> string list \<Rightarrow> string list \<Rightarrow> error + string list" where
  "testTypeReferences pkgName filePath deps [] testDependencies = Inr testDependencies"
| "testTypeReferences pkgName filePath deps (referencedPackage # rest) testDependencies =
     (if referencedPackage \<in> set deps then Inl (RedundantTestReference filePath referencedPackage)
      else if referencedPackage = pkgName then Inl (SelfReferencingTest filePath)
      else testTypeReferences pkgName filePath deps rest (setAdd referencedPackage testDependencies))"

definition addTestImport :: "string \<Rightarrow> string list \<Rightarrow> string \<Rightarrow> string list \<Rightarrow> string list" where
  "addTestImport pkgName deps imported testDependencies =
     (if \<not> startsWith imported ''.'' \<and> imported \<notin> set deps \<and> imported \<noteq> pkgName
      then setAdd imported testDependencies else testDependencies)"

text \<open>The body of the loop of \<^verbatim>\<open>getTestDependencies\<close> over the test files.\<close>

definition testFile ::
  "file_system \<Rightarrow> string \<Rightarrow> string \<Rightarrow> string list \<Rightarrow> string \<Rightarrow> string list \<Rightarrow> error + string list" where
  "testFile fs pkgName directory deps filename testDependencies =
     (case readFileAndThrowOnBOM fs directory filename of
        Inl e \<Rightarrow> Inl e
      | Inr content \<Rightarrow>
          (let sourceFile = createSourceFile filename content;
               filePath = pathJoin pkgName (fileName sourceFile)
           in case referencedFiles sourceFile of
                ref # _ \<Rightarrow> Inl (TestPathReference filePath ref)
              | [] \<Rightarrow>
                  (case testTypeReferences pkgName filePath deps
                          (typeReferenceDirectives sourceFile) testDependencies of
                     Inl e \<Rightarrow> Inl e
                   | Inr tds \<Rightarrow>
                       (case imports' (statements sourceFile) of
                          (refs, Some e) \<Rightarrow> Inl e
                        | (refs, None) \<Rightarrow> Inr (fold (addTestImport pkgName deps) refs tds)))))"

fun testFiles ::
  "file_system \<Rightarrow> string \<Rightarrow> string \<Rightarrow> string list \<Rightarrow> string list \<Rightarrow> string list \<Rightarrow> error + string list" where
  "testFiles fs pkgName directory deps [] testDependencies = Inr testDependencies"
| "testFiles fs pkgName directory deps (filename # rest) testDependencies =
     (case testFile fs pkgName directory deps filename testDependencies of
        Inl e \<Rightarrow> Inl e
      | Inr tds \<Rightarrow> testFiles fs pkgName directory deps rest tds)"

definition getTestDependencies ::
  "file_system \<Rightarrow> string \<Rightarrow> string \<Rightarrow> string list \<Rightarrow> string list \<Rightarrow> error + string list" where
  "getTestDependencies fs pkgName directory testFileNames deps =
     testFiles fs pkgName directory deps testFileNames []"

section \<open>Spec-level predicates\<close>

text \<open>
  The statement kinds \<^verbatim>\<open>statementDeclaresValue\<close> names: variable statement, class,
  function, enum, nested module, interface, type alias and import-equals.
\<close>

fun recognizedKind :: "statement \<Rightarrow> bool" where
  "recognizedKind (VariableStatement ds) = True"
| "recognizedKind (ClassDeclaration n) = True"
| "recognizedKind (FunctionDeclaration n) = True"
| "recognizedKind (EnumDeclaration n) = True"
| "recognizedKind (ModuleDeclaration ns) = True"
| "recognizedKind InterfaceDeclaration = True"
| "recognizedKind TypeAliasDeclaration = True"
| "recognizedKind (ImportEqualsDeclaration r) = True"
| "recognizedKind s = False"





text \<open>
  The import statements are the import declarations and the import-equals declarations;
  a file exports something, in the words of the specification, when one of its
  statements is neither an import statement nor a module declaration named by a string
  literal.
\<close>

fun importStatement :: "statement \<Rightarrow> bool" where
  "importStatement (ImportDeclaration e) = True"
| "importStatement (ImportEqualsDeclaration r) = True"
| "importStatement s = False"

fun stringNamedModule :: "statement \<Rightarrow> bool" where
  "stringNamedModule (ModuleDeclaration (ModuleDecl (StringLiteral n) b)) = True"
| "stringNamedModule s = False"

definition exportsSomething :: "source_file \<Rightarrow> bool" where
  "exportsSomething sourceFile =
     (\<exists>s \<in> set (statements sourceFile). \<not> importStatement s \<and> \<not> stringNamedModule s)"

text \<open>The names of the module declarations named by a string literal, in order.\<close>

fun ambientModuleNames :: "statement list \<Rightarrow> string list" where
  "ambientModuleNames [] = []"
| "ambientModuleNames (ModuleDeclaration (ModuleDecl (StringLiteral n) b) # rest) =
     n # ambientModuleNames rest"
| "ambientModuleNames (s # rest) = ambientModuleNames rest"

text \<open>
  The module names one source file contributes: its own derived name when it is an
  external module that exports something, the names of its string-named module
  declarations when it is not an external module.
\<close>

definition moduleNames :: "string \<Rightarrow> source_file \<Rightarrow> string list" where
  "moduleNames packageName sourceFile =
     (if isExternalModule sourceFile then
        (if exportsSomething sourceFile then
           (case properModuleName packageName (fileName sourceFile) of
              Inl e \<Rightarrow> []
            | Inr m \<Rightarrow> [m])
         else [])
      else ambientModuleNames (statements sourceFile))"

text \<open>
  The names one source file refers to as dependencies: the roots of its imports that do
  not start with a dot, and the targets of its type reference directives.
\<close>

definition dependencyNames :: "source_file \<Rightarrow> string list" where
  "dependencyNames sourceFile =
     map rootName (filter (\<lambda>t. \<not> startsWith t ''.'') (fst (imports' (statements sourceFile))))
       @ typeReferenceDirectives sourceFile"

section \<open>Example packages\<close>

text \<open>A package whose only file is a script that declares the module \<open>foo\<close>.\<close>

definition ambientPackage :: file_system where
  "ambientPackage =
     [(''index.d.ts'',
       \<lparr>referencedFiles = [], typeReferenceDirectives = [],
        statements = [ModuleDeclaration (ModuleDecl (StringLiteral ''foo'') (Some (ModuleBlock [])))],
        isExternalModule = False\<rparr>)]"

text \<open>
  A package of two external modules: \<open>index.d.ts\<close> imports \<open>./a\<close> and the package
  itself, refers to the types of the package itself and of \<open>node\<close>, and exports a class;
  \<open>a.d.ts\<close> only imports \<open>other/sub\<close>.
\<close>

definition modulePackage :: file_system where
  "modulePackage =
     [(''index.d.ts'',
       \<lparr>referencedFiles = [], typeReferenceDirectives = [''pkg'', ''node''],
        statements = [ImportDeclaration (StringLiteralExpression ''./a''),
                      ImportDeclaration (StringLiteralExpression ''pkg/sub''),
                      ClassDeclaration (Some ''C'')],
        isExternalModule = True\<rparr>),
      (''a.d.ts'',
       \<lparr>referencedFiles = [], typeReferenceDirectives = [],
        statements = [ImportDeclaration (StringLiteralExpression ''other/sub'')],
        isExternalModule = True\<rparr>)]"

text \<open>
  The test files of a package, as the specification reads them: a violation is a path
  reference, or a type reference that is a known dependency or the package itself; the
  names a file adds are its type references and its imports that are not relative, not
  known dependencies and not the package itself.
\<close>

definition testViolation :: "string \<Rightarrow> string list \<Rightarrow> parsed \<Rightarrow> bool" where
  "testViolation pkgName deps content =
     (referencedFiles content \<noteq> []
      \<or> (\<exists>t \<in> set (typeReferenceDirectives content). t \<in> set deps \<or> t = pkgName))"

definition testNames :: "string \<Rightarrow> string list \<Rightarrow> parsed \<Rightarrow> string set" where
  "testNames pkgName deps content =
     set (typeReferenceDirectives content)
       \<union> {i \<in> set (fst (imports' (statements content))).
            \<not> startsWith i ''.'' \<and> i \<notin> set deps \<and> i \<noteq> pkgName}"

text \<open>A test file is well read when it is in the table and collecting its imports
  does not throw.\<close>

definition wellRead :: "file_system \<Rightarrow> string \<Rightarrow> bool" where
  "wellRead fs filename =
     (case map_of fs filename of
        None \<Rightarrow> False
      | Some content \<Rightarrow> snd (imports' (statements content)) = None)"

text \<open>A test file whose only statement is \<^verbatim>\<open>import x = require(y)\<close>, and one that
  imports a known dependency and a new one.\<close>

definition badRequireTests :: file_system where
  "badRequireTests =
     [(''pkg-tests.ts'',
       \<lparr>referencedFiles = [], typeReferenceDirectives = [],
        statements = [ImportEqualsDeclaration (ExternalModuleReference (Some OtherExpression))],
        isExternalModule = True\<rparr>)]"

definition importingTests :: file_system where
  "importingTests =
     [(''pkg-tests.ts'',
       \<lparr>referencedFiles = [], typeReferenceDirectives = [''mocha''],
        statements = [ImportDeclaration (StringLiteralExpression ''known''),
                      ImportDeclaration (StringLiteralExpression ''novel''),
                      ImportDeclaration (StringLiteralExpression ''./helper'')],
        isExternalModule = True\<rparr>)]"

text \<open>The names a test file adds and whether it holds a violation, by file name;
  a file that is not in the table adds nothing and holds none.\<close>

definition namesOfTest :: "file_system \<Rightarrow> string \<Rightarrow> string list \<Rightarrow> string \<Rightarrow> string set" where
  "namesOfTest fs pkgName deps filename =
     (case map_of fs filename of None \<Rightarrow> {} | Some content \<Rightarrow> testNames pkgName deps content)"

definition violating :: "file_system \<Rightarrow> string \<Rightarrow> string list \<Rightarrow> string \<Rightarrow> bool" where
  "violating fs pkgName deps filename =
     (case map_of fs filename of None \<Rightarrow> False | Some content \<Rightarrow> testViolation pkgName deps content)"

text \<open>A file with nothing in it.\<close>

definition emptyFile :: parsed where
  "emptyFile =
     \<lparr>referencedFiles = [], typeReferenceDirectives = [], statements = [], isExternalModule = False\<rparr>"

section \<open>Reachable references and files\<close>

text \<open>
  A reference escapes the package when its text, joined to the directory of the file
  that holds it and normalized, starts with two dots.
\<close>

definition escapes :: "string \<Rightarrow> string \<Rightarrow> bool" where
  "escapes subDirectory t =
     startsWith (normalizeSlashes (normalize (joinPaths subDirectory t))) ''..''"

text \<open>
  The file name and text a reference resolves to, if any, and the references of that
  file, if they can be taken. A reference is reachable when it names an entry file, or
  is among the references of the file a reachable reference resolves to; a file is
  reachable when a reachable reference resolves to it.
\<close>

definition resolved :: "file_system \<Rightarrow> string \<Rightarrow> reference \<Rightarrow> (string \<times> parsed) option" where
  "resolved fs directory r =
     (case snd (resolveReference fs [] directory r) of Inl e \<Rightarrow> None | Inr x \<Rightarrow> Some x)"

definition outgoing :: "file_system \<Rightarrow> string \<Rightarrow> reference \<Rightarrow> reference list option" where
  "outgoing fs directory r =
     (case resolved fs directory r of
        None \<Rightarrow> None
      | Some (n, content) \<Rightarrow>
          (case referencedFiles' (createSourceFile n content) (dirname n) directory of
             Inl e \<Rightarrow> None
           | Inr refs \<Rightarrow> Some refs))"

inductive_set reachable :: "file_system \<Rightarrow> string \<Rightarrow> string list \<Rightarrow> reference set"
  for fs :: file_system and directory :: string and entryFilenames :: "string list" where
  entry: "filename \<in> set entryFilenames
     \<Longrightarrow> \<lparr>exact = True, text' = filename\<rparr> \<in> reachable fs directory entryFilenames"
| step: "r \<in> reachable fs directory entryFilenames \<Longrightarrow> outgoing fs directory r = Some refs
     \<Longrightarrow> r' \<in> set refs \<Longrightarrow> r' \<in> reachable fs directory entryFilenames"

definition reachableFiles :: "file_system \<Rightarrow> string \<Rightarrow> string list \<Rightarrow> string set" where
  "reachableFiles fs directory entryFilenames =
     {n. \<exists>r \<in> reachable fs directory entryFilenames. \<exists>content. resolved fs directory r = Some (n, content)}"

text \<open>Two files that import each other, and a file whose path reference and import
  have the same text after normalization.\<close>

definition cyclicPackage :: file_system where
  "cyclicPackage =
     [(''a.d.ts'', emptyFile\<lparr>statements := [ImportDeclaration (StringLiteralExpression ''./b'')],
                            isExternalModule := True\<rparr>),
      (''b.d.ts'', emptyFile\<lparr>statements := [ImportDeclaration (StringLiteralExpression ''./a'')],
                            isExternalModule := True\<rparr>)]"

definition clashPackage :: file_system where
  "clashPackage =
     [(''a.d.ts'', emptyFile\<lparr>referencedFiles := [''b.d.ts''],
                            statements := [ImportDeclaration (StringLiteralExpression ''./b.d.ts'')],
                            isExternalModule := True\<rparr>),
      (''b.d.ts'', emptyFile),
      (''b.d.ts.d.ts'', emptyFile)]"

definition escapingPackage :: file_system where
  "escapingPackage = [(''index.d.ts'', emptyFile\<lparr>referencedFiles := [''../x.d.ts'']\<rparr>)]"

text \<open>The references of a recorded file could be taken without error.\<close>

definition referencesTaken :: "string \<Rightarrow> string \<times> source_file \<Rightarrow> bool" where
  "referencesTaken dir p = (\<exists>refs. referencedFiles' (snd p) (dirname (fst p)) dir = Inr refs)"

text \<open>
  The text of a reachable reference determines the reference: no text is met both as a
  path reference and as a module reference.
\<close>

definition textDetermines :: "file_system \<Rightarrow> string \<Rightarrow> string list \<Rightarrow> bool" where
  "textDetermines fs directory entryFilenames =
     (\<forall>r \<in> reachable fs directory entryFilenames. \<forall>r' \<in> reachable fs directory entryFilenames.
        text' r = text' r' \<longrightarrow> r = r')"

text \<open>
  Two invariants of the walk. The first: the references in flight are reachable, every
  recorded file is the file a reachable reference resolves to, and no file name is
  recorded twice. The second: every entry is seen, and a reachable reference whose text
  is seen is in flight, or its file is recorded and the texts of the references of its
  file are seen.
\<close>

definition walkSound ::
  "file_system \<Rightarrow> string \<Rightarrow> string list \<Rightarrow> string list \<times> (string \<times> source_file) list
     \<Rightarrow> (string \<times> reference) list \<Rightarrow> bool" where
  "walkSound fs directory entryFilenames st inFlight =
     ((\<forall>p \<in> set inFlight. snd p \<in> reachable fs directory entryFilenames)
      \<and> (\<forall>p \<in> set (snd st). \<exists>r \<in> reachable fs directory entryFilenames. \<exists>content.
            resolved fs directory r = Some (fst p, content) \<and> snd p = createSourceFile (fst p) content)
      \<and> distinct (map fst (snd st)))"

definition walkComplete ::
  "file_system \<Rightarrow> string \<Rightarrow> string list \<Rightarrow> string list \<times> (string \<times> source_file) list
     \<Rightarrow> (string \<times> reference) list \<Rightarrow> bool" where
  "walkComplete fs directory entryFilenames st inFlight =
     ((\<forall>f \<in> set entryFilenames. f \<in> set (fst st))
      \<and> (\<forall>r \<in> reachable fs directory entryFilenames. text' r \<in> set (fst st) \<longrightarrow>
            r \<in> snd ` set inFlight
            \<or> ((\<exists>refs. outgoing fs directory r = Some refs \<and> text' ` set refs \<subseteq> set (fst st))
               \<and> (\<exists>n content. resolved fs directory r = Some (n, content)
                     \<and> n \<in> fst ` set (snd st)))))"

text \<open>
  The references of a file can be collected when collecting its imports does not throw
  and none of its references, path reference or relative import, has a backslash in its
  text or escapes the package. \<open>allResolve\<close>: every reachable reference resolves to a
  file that can be read and whose references can be collected.
\<close>

definition collectable :: "string \<Rightarrow> parsed \<Rightarrow> bool" where
  "collectable n content =
     (snd (imports' (statements content)) = None
      \<and> list_all (\<lambda>r. \<not> hasWindowsSlashes (text' r) \<and> \<not> escapes (dirname n) (text' r))
           (fst (rawReferences (createSourceFile n content))))"

definition allResolve :: "file_system \<Rightarrow> string \<Rightarrow> string list \<Rightarrow> bool" where
  "allResolve fs directory entryFilenames =
     (\<forall>r \<in> reachable fs directory entryFilenames.
        \<exists>n content. resolved fs directory r = Some (n, content) \<and> collectable n content)"

text \<open>The references of the entry files, as the walk begins with them.\<close>

definition entryReferences :: "string list \<Rightarrow> reference list" where
  "entryReferences entries = map (\<lambda>filename. \<lparr>exact = True, text' = filename\<rparr>) entries"

text \<open>No reference written in a file of the table escapes the package.\<close>

definition insidePackage :: "file_system \<Rightarrow> bool" where
  "insidePackage fs =
     list_all (\<lambda>(n, content).
        list_all (\<lambda>r. \<not> escapes (dirname n) (text' r))
          (fst (rawReferences (createSourceFile n content)))) fs"

text \<open>Both invariants together.\<close>

definition walkBoth ::
  "file_system \<Rightarrow> string \<Rightarrow> string list \<Rightarrow> string list \<times> (string \<times> source_file) list
     \<Rightarrow> (string \<times> reference) list \<Rightarrow> bool" where
  "walkBoth fs dir entries st inFlight =
     (walkSound fs dir entries st inFlight \<and> walkComplete fs dir entries st inFlight)"

text \<open>A path reference to the parent directory written with a backslash, and a package
  whose entry file holds it.\<close>

definition backslashParent :: string where
  "backslashParent = ''..'' @ [backslash] @ ''x.d.ts''"

definition backslashPackage :: file_system where
  "backslashPackage = [(''index.d.ts'', emptyFile\<lparr>referencedFiles := [backslashParent]\<rparr>)]"

text \<open>
  The target of an import: the string of an import declaration, of an export
  declaration with a \<^verbatim>\<open>from\<close> clause, or of an import-equals declaration with
  \<^verbatim>\<open>require\<close>. A statement is written in a list of statements when it is one of them,
  or is written in the block of a module declaration of the list that is named by a
  string literal, at any depth.
\<close>

fun importTarget :: "statement \<Rightarrow> string option" where
  "importTarget (ImportDeclaration (StringLiteralExpression t)) = Some t"
| "importTarget (ExportDeclaration (Some (StringLiteralExpression t))) = Some t"
| "importTarget (ImportEqualsDeclaration (ExternalModuleReference (Some (StringLiteralExpression t)))) = Some t"
| "importTarget s = None"

inductive written :: "statement \<Rightarrow> statement list \<Rightarrow> bool" where
  top: "s \<in> set stmts \<Longrightarrow> written s stmts"
| inner: "ModuleDeclaration (ModuleDecl (StringLiteral x) (Some (ModuleBlock body))) \<in> set stmts
     \<Longrightarrow> written s body \<Longrightarrow> written s stmts"

definition writtenTargets :: "statement list \<Rightarrow> string set" where
  "writtenTargets stmts = {t. \<exists>s. written s stmts \<and> importTarget s = Some t}"

text \<open>Imports written two blocks deep: an import declaration, a \<^verbatim>\<open>require\<close> and an
  export declaration.\<close>

definition nestedImports :: "statement list" where
  "nestedImports =
     [ModuleDeclaration (ModuleDecl (StringLiteral ''x'') (Some (ModuleBlock
        [ImportDeclaration (StringLiteralExpression ''./rel''),
         ModuleDeclaration (ModuleDecl (StringLiteral ''y'') (Some (ModuleBlock
           [ImportEqualsDeclaration
              (ExternalModuleReference (Some (StringLiteralExpression ''dep/sub''))),
            ExportDeclaration (Some (StringLiteralExpression ''./other''))])))])))]"


text \<open>A package whose entry file imports \<open>./lib/a\<close>, a file with a path reference
  that leaves the package.\<close>

definition deepPackage :: file_system where
  "deepPackage =
     [(''index.d.ts'', emptyFile\<lparr>statements := [ImportDeclaration (StringLiteralExpression ''./lib/a'')],
                                isExternalModule := True\<rparr>),
      (''lib/a.d.ts'', emptyFile\<lparr>referencedFiles := [''../../x.d.ts'']\<rparr>)]"

section \<open>Imports inside string-named module declarations\<close>

lemma imports_append: "imports' (a @ b) = genAppend (imports' a) (imports' b)"
proof (induction a)
  case Nil
  show ?case by (cases "imports' b") simp
next
  case (Cons s a)
  obtain xs e where n: "importsNode s = (xs, e)" by (cases "importsNode s")
  obtain ys f where a: "imports' a = (ys, f)" by (cases "imports' a")
  obtain zs g where b: "imports' b = (zs, g)" by (cases "imports' b")
  show ?case using Cons n a b by (cases e; cases f) simp_all
qed

lemma written_Nil: "\<not> written s []"
  by (auto elim: written.cases)

lemma written_Cons: "written s (a # rest) \<longleftrightarrow> written s [a] \<or> written s rest"
proof
  assume "written s (a # rest)"
  then show "written s [a] \<or> written s rest"
  proof (cases rule: written.cases)
    case top
    then show ?thesis by (auto intro: written.top)
  next
    case (inner x body)
    then show ?thesis by (auto intro: written.inner)
  qed
next
  assume "written s [a] \<or> written s rest"
  then show "written s (a # rest)"
  proof
    assume "written s [a]"
    then show ?thesis
    proof (cases rule: written.cases)
      case top
      then show ?thesis by (auto intro: written.top)
    next
      case (inner x body)
      then show ?thesis by (auto intro: written.inner)
    qed
  next
    assume "written s rest"
    then show ?thesis
    proof (cases rule: written.cases)
      case top
      then show ?thesis by (auto intro: written.top)
    next
      case (inner x body)
      then show ?thesis by (auto intro: written.inner)
    qed
  qed
qed

lemma written_single:
  "written s [a] \<longleftrightarrow>
     s = a \<or> (\<exists>x body. a = ModuleDeclaration (ModuleDecl (StringLiteral x) (Some (ModuleBlock body)))
                \<and> written s body)"
proof
  assume "written s [a]"
  then show "s = a \<or> (\<exists>x body. a = ModuleDeclaration (ModuleDecl (StringLiteral x) (Some (ModuleBlock body)))
                \<and> written s body)"
    by (cases rule: written.cases) auto
next
  assume "s = a \<or> (\<exists>x body. a = ModuleDeclaration (ModuleDecl (StringLiteral x) (Some (ModuleBlock body)))
                \<and> written s body)"
  then show "written s [a]"
  proof
    assume "s = a"
    then show ?thesis by (simp add: written.top)
  next
    assume "\<exists>x body. a = ModuleDeclaration (ModuleDecl (StringLiteral x) (Some (ModuleBlock body)))
                \<and> written s body"
    then obtain x body where a: "a = ModuleDeclaration (ModuleDecl (StringLiteral x) (Some (ModuleBlock body)))"
      and w: "written s body" by blast
    from a have "ModuleDeclaration (ModuleDecl (StringLiteral x) (Some (ModuleBlock body))) \<in> set [a]"
      by simp
    from written.inner [OF this w] show ?thesis .
  qed
qed

lemma targets_Nil: "writtenTargets [] = {}"
  by (simp add: writtenTargets_def written_Nil)

lemma targets_Cons: "writtenTargets (a # rest) = writtenTargets [a] \<union> writtenTargets rest"
  unfolding writtenTargets_def using written_Cons [of _ a rest] by auto

lemma targets_block:
  "writtenTargets [ModuleDeclaration (ModuleDecl (StringLiteral x) (Some (ModuleBlock body)))]
     = writtenTargets body"
  unfolding writtenTargets_def by (auto simp: written_single)

lemma targets_other:
  "(\<And>x body. a \<noteq> ModuleDeclaration (ModuleDecl (StringLiteral x) (Some (ModuleBlock body))))
   \<Longrightarrow> writtenTargets [a] = (case importTarget a of None \<Rightarrow> {} | Some t \<Rightarrow> {t})"
  unfolding writtenTargets_def by (auto simp: written_single split: option.splits)

lemma imports_targets:
  "set (fst (imports' stmts)) \<subseteq> writtenTargets stmts
     \<and> (snd (imports' stmts) = None \<longrightarrow> set (fst (imports' stmts)) = writtenTargets stmts)"
  "set (fst (importsNode node)) \<subseteq> writtenTargets [node]
     \<and> (snd (importsNode node) = None \<longrightarrow> set (fst (importsNode node)) = writtenTargets [node])"
proof (induction stmts and node rule: imports'_importsNode.induct)
  case 1
  show ?case by (simp add: targets_Nil)
next
  case (2 node rest)
  obtain xs e where n: "importsNode node = (xs, e)" by (cases "importsNode node")
  obtain ys f where r: "imports' rest = (ys, f)" by (cases "imports' rest")
  from 2 n r show ?case
    by (cases e) (auto simp: targets_Cons [of node rest])
next
  case (8 e)
  show ?case by (cases e rule: parseRequire.cases) (simp_all add: targets_other)
next
  case (10 n body)
  then show ?case by (simp add: targets_block)
qed (simp_all add: targets_other)

lemma addReferences_member:
  "addReferences f sub dir raw = Inr refs \<Longrightarrow> r \<in> set raw
   \<Longrightarrow> \<lparr>exact = exact r, text' = normalizeSlashes (normalize (joinPaths sub (text' r)))\<rparr> \<in> set refs"
proof (induction raw arbitrary: refs)
  case Nil
  then show ?case by simp
next
  case (Cons a raw)
  from Cons.prems(1) obtain a' rs' where
    1: "addReference f sub dir a = Inr a'" and 2: "addReferences f sub dir raw = Inr rs'"
    and 3: "refs = a' # rs'"
    by (auto split: sum.splits)
  from 1 have a': "a' = \<lparr>exact = exact a, text' = normalizeSlashes (normalize (joinPaths sub (text' a)))\<rparr>"
    by (auto simp: addReference_def assertNoWindowsSlashes_def Let_def split: if_splits)
  show ?case
  proof (cases "r = a")
    case True
    with a' 3 show ?thesis by simp
  next
    case False
    with Cons.prems(2) have "r \<in> set raw" by simp
    from Cons.IH [OF 2 this] 3 show ?thesis by simp
  qed
qed

text \<open>
  C10. The strings \<^verbatim>\<open>imports\<close> yields are targets of imports written in the list of
  statements, at the top or inside the blocks of module declarations named by a string
  literal, at any depth; when it does not throw, they are all of them: the targets of
  the import declarations, of the export declarations with a \<^verbatim>\<open>from\<close> clause and of
  the import-equals declarations with \<^verbatim>\<open>require\<close>. Such an import written in a file
  gives a reference of the file when its target is relative, which is among the
  references handed to \<^verbatim>\<open>recur\<close> with its text normalized, and its dependency root
  among the names the file refers to otherwise. What \<^verbatim>\<open>imports\<close>
  yields and throws does not change when a module declaration named by a string literal
  is replaced by the statements of its block, and so neither do the references of the
  file nor the names it refers to.
\<close>

theorem imports_string_module:
  "imports' (pre @ ModuleDeclaration (ModuleDecl (StringLiteral x) (Some (ModuleBlock body))) # post)
     = imports' (pre @ body @ post)
   \<and> referencedFiles'
        (src\<lparr>statements :=
               pre @ ModuleDeclaration (ModuleDecl (StringLiteral x) (Some (ModuleBlock body))) # post\<rparr>)
        subDirectory directory
     = referencedFiles' (src\<lparr>statements := pre @ body @ post\<rparr>) subDirectory directory
   \<and> dependencyNames
        (src\<lparr>statements :=
               pre @ ModuleDeclaration (ModuleDecl (StringLiteral x) (Some (ModuleBlock body))) # post\<rparr>)
     = dependencyNames (src\<lparr>statements := pre @ body @ post\<rparr>)
   \<and> set (fst (imports' stmts)) \<subseteq> writtenTargets stmts
   \<and> (snd (imports' stmts) = None \<longrightarrow> set (fst (imports' stmts)) = writtenTargets stmts)
   \<and> (written s (statements sf) \<and> importTarget s = Some t
        \<and> snd (imports' (statements sf)) = None \<longrightarrow>
        (if startsWith t ''.'' then \<lparr>exact = False, text' = t\<rparr> \<in> set (fst (rawReferences sf))
         else rootName t \<in> set (dependencyNames sf)))
   \<and> (written s (statements sf) \<and> importTarget s = Some t \<and> startsWith t ''.''
        \<and> referencedFiles' sf subDirectory directory = Inr refs \<longrightarrow>
        \<lparr>exact = False, text' = normalizeSlashes (normalize (joinPaths subDirectory t))\<rparr> \<in> set refs)"
proof -
  have "imports' (ModuleDeclaration (ModuleDecl (StringLiteral x) (Some (ModuleBlock body))) # post)
      = imports' (body @ post)"
    by (simp add: imports_append)
  then have 1: "imports' (pre @ ModuleDeclaration (ModuleDecl (StringLiteral x) (Some (ModuleBlock body))) # post)
     = imports' (pre @ body @ post)"
    by (simp only: imports_append [of pre])
  have 2: "written s (statements sf) \<and> importTarget s = Some t
        \<and> snd (imports' (statements sf)) = None \<longrightarrow>
        (if startsWith t ''.'' then \<lparr>exact = False, text' = t\<rparr> \<in> set (fst (rawReferences sf))
         else rootName t \<in> set (dependencyNames sf))"
  proof
    assume h: "written s (statements sf) \<and> importTarget s = Some t
        \<and> snd (imports' (statements sf)) = None"
    then have "t \<in> writtenTargets (statements sf)" by (auto simp: writtenTargets_def)
    with imports_targets(1) [of "statements sf"] h
    have t: "t \<in> set (fst (imports' (statements sf)))" by simp
    obtain ts err where i: "imports' (statements sf) = (ts, err)"
      by (cases "imports' (statements sf)")
    with t show "if startsWith t ''.'' then \<lparr>exact = False, text' = t\<rparr> \<in> set (fst (rawReferences sf))
         else rootName t \<in> set (dependencyNames sf)"
      by (auto simp: rawReferences_def dependencyNames_def)
  qed
  have 3: "written s (statements sf) \<and> importTarget s = Some t \<and> startsWith t ''.''
        \<and> referencedFiles' sf subDirectory directory = Inr refs \<longrightarrow>
        \<lparr>exact = False, text' = normalizeSlashes (normalize (joinPaths subDirectory t))\<rparr> \<in> set refs"
  proof
    assume h: "written s (statements sf) \<and> importTarget s = Some t \<and> startsWith t ''.''
        \<and> referencedFiles' sf subDirectory directory = Inr refs"
    obtain ts err where i: "imports' (statements sf) = (ts, err)"
      by (cases "imports' (statements sf)")
    obtain raw where raw: "rawReferences sf = (raw, err)"
      using i by (simp add: rawReferences_def)
    from h raw have a: "addReferences (fileName sf) subDirectory directory raw = Inr refs"
      and e: "err = None"
      by (auto simp: referencedFiles'_def split: sum.splits option.splits)
    from h have "t \<in> writtenTargets (statements sf)" by (auto simp: writtenTargets_def)
    with imports_targets(1) [of "statements sf"] i e have "t \<in> set ts" by simp
    with h i raw have "\<lparr>exact = False, text' = t\<rparr> \<in> set raw"
      by (auto simp: rawReferences_def)
    from addReferences_member [OF a this]
    show "\<lparr>exact = False, text' = normalizeSlashes (normalize (joinPaths subDirectory t))\<rparr> \<in> set refs"
      by simp
  qed
  from 1 2 3 imports_targets(1) [of stmts] show ?thesis
    by (simp add: referencedFiles'_def rawReferences_def dependencyNames_def)
qed

lemma nested_written:
  "written (ImportEqualsDeclaration (ExternalModuleReference (Some (StringLiteralExpression ''dep/sub''))))
     nestedImports"
  "written (ExportDeclaration (Some (StringLiteralExpression ''./other''))) nestedImports"
  "written (ImportDeclaration (StringLiteralExpression ''./rel'')) nestedImports"
  by (simp_all add: nestedImports_def written_single written_Cons [of _ _ "_ # _"])

theorem imports_string_module_witness:
  "imports' nestedImports = ([''./rel'', ''dep/sub'', ''./other''], None)
   \<and> writtenTargets nestedImports = {''./rel'', ''dep/sub'', ''./other''}
   \<and> written (ImportEqualsDeclaration (ExternalModuleReference (Some (StringLiteralExpression ''dep/sub''))))
        nestedImports
   \<and> rootName ''dep/sub'' = ''dep''
   \<and> ''dep'' \<in> set (dependencyNames (createSourceFile ''index.d.ts'' (emptyFile\<lparr>statements := nestedImports\<rparr>)))
   \<and> written (ExportDeclaration (Some (StringLiteralExpression ''./other''))) nestedImports
   \<and> \<lparr>exact = False, text' = ''./other''\<rparr>
        \<in> set (fst (rawReferences (createSourceFile ''index.d.ts'' (emptyFile\<lparr>statements := nestedImports\<rparr>))))
   \<and> referencedFiles' (createSourceFile ''index.d.ts'' (emptyFile\<lparr>statements := nestedImports\<rparr>))
        ''.'' ''pkg''
       = Inr [\<lparr>exact = False, text' = ''rel''\<rparr>, \<lparr>exact = False, text' = ''other''\<rparr>]
   \<and> startsWith ''./other'' ''.''
   \<and> normalizeSlashes (normalize (joinPaths ''.'' ''./other'')) = ''other''"
proof -
  let ?file = "createSourceFile ''index.d.ts'' (emptyFile\<lparr>statements := nestedImports\<rparr>)"
  have i: "imports' nestedImports = ([''./rel'', ''dep/sub'', ''./other''], None)"
    by (simp add: nestedImports_def)
  have s: "statements ?file = nestedImports" by (simp add: createSourceFile_def)
  have r: "rootName ''dep/sub'' = ''dep''" by (simp add: rootName_def indexOf_def startsWith_def)
  note a = imports_string_module [where stmts = nestedImports and sf = ?file
      and s = "ImportEqualsDeclaration (ExternalModuleReference (Some (StringLiteralExpression ''dep/sub'')))"
      and t = "''dep/sub''"]
  note b = imports_string_module [where stmts = nestedImports and sf = ?file
      and s = "ExportDeclaration (Some (StringLiteralExpression ''./other''))"
      and t = "''./other''"]
  from a i s r nested_written(1)
  have g1: "writtenTargets nestedImports = {''./rel'', ''dep/sub'', ''./other''}"
    and g2: "''dep'' \<in> set (dependencyNames ?file)"
    by (auto simp: startsWith_def)
  from b i s nested_written(2)
  have g3: "\<lparr>exact = False, text' = ''./other''\<rparr> \<in> set (fst (rawReferences ?file))"
    by (simp add: startsWith_def)
  have rf: "referencedFiles' ?file ''.'' ''pkg''
       = Inr [\<lparr>exact = False, text' = ''rel''\<rparr>, \<lparr>exact = False, text' = ''other''\<rparr>]"
    by (simp add: referencedFiles'_def rawReferences_def createSourceFile_def nestedImports_def
        addReference_def assertNoWindowsSlashes_def hasWindowsSlashes_def backslash_def
        startsWith_def joinPaths_def normalize_def normalizeSlashes_def emptyFile_def)
  have n: "normalizeSlashes (normalize (joinPaths ''.'' ''./other'')) = ''other''"
    by (simp add: joinPaths_def normalize_def normalizeSlashes_def backslash_def)
  note c = imports_string_module [where sf = ?file
      and s = "ExportDeclaration (Some (StringLiteralExpression ''./other''))"
      and t = "''./other''" and subDirectory = "''.''" and directory = "''pkg''"
      and refs = "[\<lparr>exact = False, text' = ''rel''\<rparr>, \<lparr>exact = False, text' = ''other''\<rparr>]"]
  from c s rf nested_written(2)
  have g4: "\<lparr>exact = False, text' = normalizeSlashes (normalize (joinPaths ''.'' ''./other''))\<rparr>
      \<in> set [\<lparr>exact = False, text' = ''rel''\<rparr>, \<lparr>exact = False, text' = ''other''\<rparr>]"
    by (simp add: startsWith_def)
  from i r g1 g2 g3 g4 rf n nested_written show ?thesis by (simp add: startsWith_def)
qed


section \<open>Derived module names\<close>

text \<open>
  C3 as stated fails: the file name handed to \<^verbatim>\<open>properModuleName\<close> is relative to the
  package directory, and the folder name is put in front of whatever is derived from it.
  With the folder name repeated in the file name, it appears twice in the result.
\<close>

theorem properModuleName_prefixed_counterexample:
  "properModuleName ''foo'' ''foo/index.d.ts'' = Inr ''foo/foo''
   \<and> properModuleName ''foo'' ''foo/index.d.ts'' \<noteq> Inr ''foo''
   \<and> properModuleName ''foo'' ''foo/bar.d.ts'' = Inr ''foo/foo/bar''
   \<and> properModuleName ''foo'' ''foo/bar/index.d.ts'' = Inr ''foo/foo/bar''"
  by (simp add: properModuleName_def basename_def dirname_def withoutExtension_def endsWith_def
      joinPaths_def)

text \<open>
  C3, amended. For the package \<open>foo\<close>, the file \<open>index.d.ts\<close> declares \<open>foo\<close>, and both
  \<open>bar.d.ts\<close> and \<open>bar/index.d.ts\<close> declare \<open>foo/bar\<close>. In general the part derived from
  the file name is its parent directory when its base name is \<open>index.d.ts\<close>, and
  otherwise the file name without its \<open>.d.ts\<close> extension; the module name is the folder
  name when that part is \<open>.\<close>, and the folder name joined with the part otherwise. A file
  name that is neither an index file nor ends in \<open>.d.ts\<close> fails the assertion.
\<close>

theorem properModuleName_relative:
  "properModuleName ''foo'' ''index.d.ts'' = Inr ''foo''
   \<and> properModuleName ''foo'' ''bar.d.ts'' = Inr ''foo/bar''
   \<and> properModuleName ''foo'' ''bar/index.d.ts'' = Inr ''foo/bar''
   \<and> (basename fileName' = ''index.d.ts'' \<longrightarrow>
        properModuleName folderName fileName'
          = Inr (if dirname fileName' = ''.'' then folderName
                 else folderName @ ''/'' @ dirname fileName'))
   \<and> (basename (p @ ''.d.ts'') \<noteq> ''index.d.ts'' \<longrightarrow>
        properModuleName folderName (p @ ''.d.ts'')
          = Inr (if p = ''.'' then folderName else folderName @ ''/'' @ p))
   \<and> (basename fileName' \<noteq> ''index.d.ts'' \<and> \<not> endsWith fileName' ''.d.ts'' \<longrightarrow>
        properModuleName folderName fileName' = Inl AssertionError)"
proof -
  have 1: "properModuleName ''foo'' ''index.d.ts'' = Inr ''foo''"
    by (simp add: properModuleName_def basename_def dirname_def)
  have 2: "properModuleName ''foo'' ''bar.d.ts'' = Inr ''foo/bar''"
    by (simp add: properModuleName_def basename_def withoutExtension_def endsWith_def joinPaths_def)
  have 3: "properModuleName ''foo'' ''bar/index.d.ts'' = Inr ''foo/bar''"
    by (simp add: properModuleName_def basename_def dirname_def joinPaths_def)
  have 4: "basename fileName' = ''index.d.ts'' \<longrightarrow>
        properModuleName folderName fileName'
          = Inr (if dirname fileName' = ''.'' then folderName
                 else folderName @ ''/'' @ dirname fileName')"
    by (simp add: properModuleName_def joinPaths_def)
  have 5: "basename (p @ ''.d.ts'') \<noteq> ''index.d.ts'' \<longrightarrow>
        properModuleName folderName (p @ ''.d.ts'')
          = Inr (if p = ''.'' then folderName else folderName @ ''/'' @ p)"
    by (simp add: properModuleName_def withoutExtension_def endsWith_def joinPaths_def)
  have 6: "basename fileName' \<noteq> ''index.d.ts'' \<and> \<not> endsWith fileName' ''.d.ts'' \<longrightarrow>
        properModuleName folderName fileName' = Inl AssertionError"
    by (simp add: properModuleName_def withoutExtension_def)
  from 1 2 3 4 5 6 show ?thesis by blast
qed

theorem properModuleName_relative_witness:
  "basename ''lib/index.d.ts'' = ''index.d.ts''
   \<and> properModuleName ''react'' ''lib/index.d.ts'' = Inr ''react/lib''
   \<and> basename (''lib/util'' @ ''.d.ts'') \<noteq> ''index.d.ts''
   \<and> properModuleName ''react'' ''lib/util.d.ts'' = Inr ''react/lib/util''
   \<and> basename ''lib/util.ts'' \<noteq> ''index.d.ts'' \<and> \<not> endsWith ''lib/util.ts'' ''.d.ts''
   \<and> properModuleName ''react'' ''lib/util.ts'' = Inl AssertionError"
proof -
  have b: "basename ''lib/index.d.ts'' = ''index.d.ts''" by (simp add: basename_def)
  have d: "dirname ''lib/index.d.ts'' = ''lib''" by (simp add: dirname_def)
  have u: "basename (''lib/util'' @ ''.d.ts'') \<noteq> ''index.d.ts''" by (simp add: basename_def)
  have t: "basename ''lib/util.ts'' \<noteq> ''index.d.ts'' \<and> \<not> endsWith ''lib/util.ts'' ''.d.ts''"
    by (simp add: basename_def endsWith_def)
  show ?thesis
    using properModuleName_relative [of "''lib/index.d.ts''" "''react''" "''lib/util''"]
      properModuleName_relative [of "''lib/util.ts''" "''react''" "''lib/util''"] b d u t
    by simp
qed

section \<open>Value namespaces and globals\<close>






section \<open>Errors of the classification\<close>

lemma someDeclaresValue_append:
  "someDeclaresValue pre = Inr False \<Longrightarrow> someDeclaresValue (pre @ rest) = someDeclaresValue rest"
  by (induction pre) (auto split: sum.splits if_splits)

lemma someDeclaresValue_False:
  "someDeclaresValue pre = Inr False \<longleftrightarrow> (\<forall>s \<in> set pre. statementDeclaresValue s = Inr False)"
  by (induction pre) (auto split: sum.splits if_splits)

text \<open>
  C8 as stated fails for a statement of unrecognized kind that follows a statement
  declaring a value: the scan of a block stops at the first statement that declares a
  value, and what follows is never looked at.
\<close>

theorem unrecognized_after_value_counterexample:
  "isValueNamespace
     (ModuleDecl (Identifier ''N'')
        (Some (ModuleBlock [ClassDeclaration (Some ''C''), OtherStatement ''ExportAssignment''])))
     = Inr True
   \<and> \<not> recognizedKind (OtherStatement ''ExportAssignment'')"
  by simp

text \<open>
  C8, amended. A namespace with no body is an error. The classification of a namespace
  whose body is a nested namespace is that of the nested namespace, and that of a
  statement that is a namespace is that of the namespace, errors included. A statement
  whose kind is not recognized makes \<^verbatim>\<open>statementDeclaresValue\<close> fail. The statements of
  a block are examined in order, up to the first that is not found to declare no value:
  when that statement fails, the classification of the namespace fails with the same
  error; when it declares a value, the namespace is a value namespace whatever follows,
  so that no statement after it is examined; when every statement declares no value,
  the namespace is no value namespace.
\<close>

theorem classification_errors:
  "isValueNamespace (ModuleDecl n None) = Inl ShorthandAmbientModule
   \<and> isValueNamespace (ModuleDecl n (Some (NamespaceBody d))) = isValueNamespace d
   \<and> statementDeclaresValue (ModuleDeclaration d) = isValueNamespace d
   \<and> (\<not> recognizedKind s \<longrightarrow> (\<exists>k. statementDeclaresValue s = Inl (UnrecognizedNamespaceStatement k)))
   \<and> ((\<forall>s' \<in> set pre. statementDeclaresValue s' = Inr False) \<and> statementDeclaresValue s = Inl err \<longrightarrow>
        isValueNamespace (ModuleDecl n (Some (ModuleBlock (pre @ s # post)))) = Inl err)
   \<and> ((\<forall>s' \<in> set pre. statementDeclaresValue s' = Inr False) \<and> statementDeclaresValue s = Inr True \<longrightarrow>
        isValueNamespace (ModuleDecl n (Some (ModuleBlock (pre @ s # post)))) = Inr True)
   \<and> ((\<forall>s' \<in> set pre. statementDeclaresValue s' = Inr False) \<longrightarrow>
        isValueNamespace (ModuleDecl n (Some (ModuleBlock pre))) = Inr False)"
proof -
  have u: "\<not> recognizedKind s \<Longrightarrow> \<exists>k. statementDeclaresValue s = Inl (UnrecognizedNamespaceStatement k)"
    by (cases s) simp_all
  have e: "(\<forall>s' \<in> set pre. statementDeclaresValue s' = Inr False) \<and> statementDeclaresValue s = Inl err \<longrightarrow>
        isValueNamespace (ModuleDecl n (Some (ModuleBlock (pre @ s # post)))) = Inl err"
    by (simp add: someDeclaresValue_append someDeclaresValue_False [symmetric])
  have f: "(\<forall>s' \<in> set pre. statementDeclaresValue s' = Inr False) \<and> statementDeclaresValue s = Inr True \<longrightarrow>
        isValueNamespace (ModuleDecl n (Some (ModuleBlock (pre @ s # post)))) = Inr True"
    by (simp add: someDeclaresValue_append someDeclaresValue_False [symmetric])
  have g: "(\<forall>s' \<in> set pre. statementDeclaresValue s' = Inr False) \<longrightarrow>
        isValueNamespace (ModuleDecl n (Some (ModuleBlock pre))) = Inr False"
    by (simp add: someDeclaresValue_False [symmetric])
  from u e f g show ?thesis by simp
qed

theorem classification_errors_witness:
  "\<not> recognizedKind (OtherStatement ''ExportAssignment'')
   \<and> statementDeclaresValue InterfaceDeclaration = Inr False
   \<and> isValueNamespace
       (ModuleDecl (Identifier ''N'')
          (Some (ModuleBlock [InterfaceDeclaration, OtherStatement ''ExportAssignment'', ClassDeclaration None])))
       = Inl (UnrecognizedNamespaceStatement ''ExportAssignment'')
   \<and> isValueNamespace
       (ModuleDecl (Identifier ''N'')
          (Some (ModuleBlock [InterfaceDeclaration, ClassDeclaration None, OtherStatement ''ExportAssignment''])))
       = Inr True
   \<and> isValueNamespace
       (ModuleDecl (Identifier ''N'')
          (Some (ModuleBlock [InterfaceDeclaration, ModuleDeclaration (ModuleDecl (Identifier ''M'') None),
                              ClassDeclaration None])))
       = Inl ShorthandAmbientModule
   \<and> isValueNamespace
       (ModuleDecl (Identifier ''N'') (Some (ModuleBlock [InterfaceDeclaration, TypeAliasDeclaration])))
       = Inr False"
  using classification_errors [where n = "Identifier ''N''" and pre = "[InterfaceDeclaration, TypeAliasDeclaration]"]
    classification_errors [where n = "Identifier ''N''" and s = "OtherStatement ''ExportAssignment''"
      and pre = "[InterfaceDeclaration]" and post = "[ClassDeclaration None]"
      and err = "UnrecognizedNamespaceStatement ''ExportAssignment''"]
    classification_errors [where n = "Identifier ''N''" and s = "ClassDeclaration None"
      and pre = "[InterfaceDeclaration]" and post = "[OtherStatement ''ExportAssignment'']"]
    classification_errors [where n = "Identifier ''N''"
      and s = "ModuleDeclaration (ModuleDecl (Identifier ''M'') None)"
      and pre = "[InterfaceDeclaration]" and post = "[ClassDeclaration None]"
      and err = ShorthandAmbientModule]
  by simp


section \<open>Declared modules and dependencies\<close>

lemma statementExports_spec: "statementExports s = (\<not> importStatement s \<and> \<not> stringNamedModule s)"
  by (induction s rule: statementExports.induct) simp_all

lemma sourceFileExportsSomething_spec: "sourceFileExportsSomething sf = exportsSomething sf"
  by (simp add: sourceFileExportsSomething_def exportsSomething_def list_ex_iff statementExports_spec)

lemma scriptStatement_modules:
  "scriptStatement packageName s (mods, globs) = Inr (mods', globs')
   \<Longrightarrow> mods' = mods @ ambientModuleNames [s]"
  by (induction packageName s "(mods, globs)" rule: scriptStatement.induct)
     (auto simp: assertNoWindowsSlashes_def split: sum.splits if_splits)

lemma ambientModuleNames_Cons:
  "ambientModuleNames (s # rest) = ambientModuleNames [s] @ ambientModuleNames rest"
  by (cases "s # rest" rule: ambientModuleNames.cases) auto

lemma scriptStatements_modules:
  "scriptStatements packageName stmts (mods, globs) = Inr (mods', globs')
   \<Longrightarrow> mods' = mods @ ambientModuleNames stmts"
proof (induction stmts arbitrary: mods globs)
  case Nil
  then show ?case by simp
next
  case (Cons s stmts)
  from Cons.prems obtain m1 g1 where
    1: "scriptStatement packageName s (mods, globs) = Inr (m1, g1)" and
    2: "scriptStatements packageName stmts (m1, g1) = Inr (mods', globs')"
    by (auto split: sum.splits)
  from scriptStatement_modules [OF 1] Cons.IH [OF 2] show ?case
    by (simp add: ambientModuleNames_Cons [of s stmts])
qed

lemma declarations_modules:
  assumes "declarations packageName sf (mods, globs) = Inr (mods', globs')"
  shows "mods' = mods @ moduleNames packageName sf"
proof (cases "isExternalModule sf")
  case True
  with assms show ?thesis
    by (auto simp: declarations_def moduleNames_def sourceFileExportsSomething_spec
        split: if_splits sum.splits)
next
  case False
  with assms show ?thesis
    by (simp add: declarations_def moduleNames_def scriptStatements_modules)
qed

lemma fold_addDependency:
  "set (fold (addDependency p) xs d) = set d \<union> (set xs - {p})"
  by (induction xs arbitrary: d) (auto simp: addDependency_def setAdd_def)

lemma fold_addImport:
  "set (fold (addImport p) refs d)
     = set d \<union> (set (map rootName (filter (\<lambda>t. \<not> startsWith t ''.'') refs)) - {p})"
  by (induction refs arbitrary: d) (auto simp: addImport_def addDependency_def setAdd_def)

lemma sourceFileInfo_result:
  assumes "sourceFileInfo packageName sf (deps, mods, globs) = Inr (deps', mods', globs')"
  shows "mods' = mods @ moduleNames packageName sf
       \<and> set deps' = set deps \<union> (set (dependencyNames sf) - {packageName})"
proof -
  obtain refs err where i: "imports' (statements sf) = (refs, err)"
    by (cases "imports' (statements sf)")
  from assms i have e: "err = None" by (cases err) (simp_all add: sourceFileInfo_def)
  from assms i e have d: "declarations packageName sf (mods, globs) = Inr (mods', globs')"
    and f: "deps' = fold (addDependency packageName) (typeReferenceDirectives sf)
                        (fold (addImport packageName) refs deps)"
    by (auto simp: sourceFileInfo_def Let_def split: sum.splits)
  from f i have "set deps' = set deps \<union> (set (dependencyNames sf) - {packageName})"
    by (auto simp: fold_addDependency fold_addImport dependencyNames_def)
  with declarations_modules [OF d] show ?thesis by simp
qed

lemma sourceFilesInfo_result:
  "sourceFilesInfo packageName sfs (deps, mods, globs) = Inr (deps', mods', globs')
   \<Longrightarrow> mods' = mods @ concat (map (moduleNames packageName) sfs)
       \<and> set deps' = set deps \<union> ((\<Union>sf \<in> set sfs. set (dependencyNames sf)) - {packageName})"
proof (induction sfs arbitrary: deps mods globs)
  case Nil
  then show ?case by simp
next
  case (Cons sf sfs)
  from Cons.prems obtain d1 m1 g1 where
    1: "sourceFileInfo packageName sf (deps, mods, globs) = Inr (d1, m1, g1)" and
    2: "sourceFilesInfo packageName sfs (d1, m1, g1) = Inr (deps', mods', globs')"
    by (auto split: sum.splits)
  from sourceFileInfo_result [OF 1] Cons.IH [OF 2] show ?case by auto
qed

lemma imports_only: "list_all importStatement stmts \<Longrightarrow> ambientModuleNames stmts = []"
proof (induction stmts)
  case Nil
  show ?case by simp
next
  case (Cons s stmts)
  then show ?case by (cases s rule: importStatement.cases) simp_all
qed

lemma getModuleInfo_result:
  assumes "getModuleInfo sched fs packageName directory entries = Inr info"
  shows "\<exists>all'. allReferencedFiles sched fs directory entries = Inr all'
           \<and> declaredModules info = concat (map (moduleNames packageName) (map snd all'))
           \<and> set (dependencies info)
               = (\<Union>sf \<in> set (map snd all'). set (dependencyNames sf)) - {packageName}"
proof -
  from assms obtain all' deps mods globs where
    a: "allReferencedFiles sched fs directory entries = Inr all'" and
    s: "sourceFilesInfo packageName (map snd all') ([], [], []) = Inr (deps, mods, globs)" and
    i: "declaredModules info = mods" "dependencies info = deps"
    by (auto simp: getModuleInfo_def split: sum.splits)
  from sourceFilesInfo_result [OF s] a i show ?thesis by simp
qed

lemmas walk_defs = getModuleInfo_def allReferencedFiles_def resolveReference_def resolveModule_def
  readFileAndReportErrors_def readFileAndThrowOnBOM_def createSourceFile_def referencedFiles'_def
  rawReferences_def addReference_def setAdd_def assertNoWindowsSlashes_def hasWindowsSlashes_def
  backslash_def startsWith_def endsWith_def joinPaths_def normalizeSlashes_def normalize_def
  dirname_def basename_def without_def emptyFile_def

lemma walk_modulePackage:
  "allReferencedFiles sched modulePackage ''pkg'' [''index.d.ts'']
     = Inr [(''index.d.ts'', createSourceFile ''index.d.ts'' (snd (modulePackage ! 0))),
            (''a.d.ts'', createSourceFile ''a.d.ts'' (snd (modulePackage ! 1)))]"
  by (simp add: walk_defs modulePackage_def)

lemma info_modulePackage:
  "getModuleInfo sched modulePackage ''pkg'' ''pkg'' [''index.d.ts'']
     = Inr \<lparr>declFiles = [''a.d.ts'', ''index.d.ts''], dependencies = [''node'', ''other''],
            declaredModules = [''pkg''], globals = []\<rparr>"
  apply (simp add: getModuleInfo_def walk_modulePackage)
  apply (simp add: modulePackage_def createSourceFile_def sourceFileInfo_def declarations_def
      sourceFileExportsSomething_def properModuleName_def basename_def dirname_def
      addImport_def addDependency_def rootName_def indexOf_def startsWith_def setAdd_def
      sortStrings_def withoutExtension_def endsWith_def)
  done

text \<open>
  C2 as stated fails: a file that is not an external module contributes the name of
  every module it declares under a string literal.
\<close>

theorem ambient_module_declared_counterexample:
  "getModuleInfo firstStarted ambientPackage ''pkg'' ''pkg'' [''index.d.ts'']
     = Inr \<lparr>declFiles = [''index.d.ts''], dependencies = [], declaredModules = [''foo''], globals = []\<rparr>
   \<and> map (isExternalModule \<circ> snd) ambientPackage = [False]"
  by (simp add: walk_defs ambientPackage_def sourceFileInfo_def declarations_def sortStrings_def)

text \<open>
  C2, amended. The declared modules of a package are the names its files contribute, in
  the order the walk recorded the files: an external module contributes its own derived name if and only
  if it exports something, that is, it has a top-level statement that is neither an
  import statement nor a module declaration named by a string literal; a file that is not
  an external module contributes the names of its module declarations named by a string
  literal. A file of import statements only contributes nothing.
\<close>

theorem declaredModules_contributions:
  assumes "getModuleInfo sched fs packageName directory entries = Inr info"
  shows "(\<exists>all'. allReferencedFiles sched fs directory entries = Inr all'
            \<and> declaredModules info = concat (map (moduleNames packageName) (map snd all')))
         \<and> sourceFileExportsSomething sourceFile = exportsSomething sourceFile
         \<and> (list_all importStatement (statements sourceFile)
              \<longrightarrow> moduleNames packageName sourceFile = [])"
proof -
  have "list_all importStatement (statements sourceFile) \<longrightarrow> moduleNames packageName sourceFile = []"
    by (auto simp: moduleNames_def exportsSomething_def list_all_iff imports_only)
  with getModuleInfo_result [OF assms] show ?thesis
    by (auto simp: sourceFileExportsSomething_spec)
qed

theorem declaredModules_contributions_witness:
  "getModuleInfo firstStarted modulePackage ''pkg'' ''pkg'' [''index.d.ts'']
     = Inr \<lparr>declFiles = [''a.d.ts'', ''index.d.ts''], dependencies = [''node'', ''other''],
            declaredModules = [''pkg''], globals = []\<rparr>
   \<and> list_all importStatement (statements (createSourceFile ''a.d.ts'' (snd (modulePackage ! 1))))
   \<and> moduleNames ''pkg'' (createSourceFile ''a.d.ts'' (snd (modulePackage ! 1))) = []
   \<and> (\<exists>all'. allReferencedFiles firstStarted modulePackage ''pkg'' [''index.d.ts''] = Inr all'
         \<and> [''pkg''] = concat (map (moduleNames ''pkg'') (map snd all')))"
proof -
  have l: "list_all importStatement (statements (createSourceFile ''a.d.ts'' (snd (modulePackage ! 1))))"
    by (simp add: modulePackage_def createSourceFile_def)
  from declaredModules_contributions [OF info_modulePackage [of firstStarted],
      where sourceFile = "createSourceFile ''a.d.ts'' (snd (modulePackage ! 1))"]
    l info_modulePackage [of firstStarted]
  show ?thesis by simp
qed

text \<open>
  C9. The dependencies of a package never hold the name of the package: they are the
  names its files refer to, that name left out. A reference to the package itself, by a
  type reference directive or by an import whose root is the name of the package, adds
  nothing and is no error.
\<close>

theorem dependencies_exclude_package:
  assumes "getModuleInfo sched fs packageName directory entries = Inr info"
  shows "packageName \<notin> set (dependencies info)
         \<and> (\<exists>all'. allReferencedFiles sched fs directory entries = Inr all'
              \<and> set (dependencies info)
                  = (\<Union>sf \<in> set (map snd all'). set (dependencyNames sf)) - {packageName})
         \<and> addDependency packageName packageName deps = deps
         \<and> (rootName ref = packageName \<longrightarrow> addImport packageName ref deps = deps)"
  using getModuleInfo_result [OF assms] by (auto simp: addDependency_def addImport_def)

theorem dependencies_exclude_package_witness:
  "getModuleInfo firstStarted modulePackage ''pkg'' ''pkg'' [''index.d.ts'']
     = Inr \<lparr>declFiles = [''a.d.ts'', ''index.d.ts''], dependencies = [''node'', ''other''],
            declaredModules = [''pkg''], globals = []\<rparr>
   \<and> ''pkg'' \<in> set (typeReferenceDirectives (snd (modulePackage ! 0)))
   \<and> rootName ''pkg/sub'' = ''pkg''
   \<and> ''pkg'' \<notin> set [''node'', ''other'']
   \<and> addImport ''pkg'' ''pkg/sub'' [''node''] = [''node'']"
proof -
  have r: "rootName ''pkg/sub'' = ''pkg''"
    by (simp add: rootName_def indexOf_def startsWith_def)
  have t: "''pkg'' \<in> set (typeReferenceDirectives (snd (modulePackage ! 0)))"
    by (simp add: modulePackage_def)
  from dependencies_exclude_package [OF info_modulePackage [of firstStarted],
      where deps = "[''node'']" and ref = "''pkg/sub''"] r t
    info_modulePackage [of firstStarted]
  show ?thesis by simp
qed

section \<open>Test dependencies\<close>

lemma testTypeReferences_Inr:
  "testTypeReferences pkgName filePath deps trs acc = Inr tds
   \<Longrightarrow> (\<forall>t \<in> set trs. t \<notin> set deps \<and> t \<noteq> pkgName) \<and> set tds = set acc \<union> set trs"
  by (induction trs arbitrary: acc) (auto simp: setAdd_def split: if_splits)

lemma testTypeReferences_ok:
  "\<forall>t \<in> set trs. t \<notin> set deps \<and> t \<noteq> pkgName
   \<Longrightarrow> \<exists>tds. testTypeReferences pkgName filePath deps trs acc = Inr tds"
  by (induction trs arbitrary: acc) auto

lemma fold_addTestImport:
  "set (fold (addTestImport pkgName deps) refs tds)
     = set tds \<union> {i \<in> set refs. \<not> startsWith i ''.'' \<and> i \<notin> set deps \<and> i \<noteq> pkgName}"
  by (induction refs arbitrary: tds) (auto simp: addTestImport_def setAdd_def)

lemma testFile_Inr:
  assumes "testFile fs pkgName directory deps filename acc = Inr tds"
  shows "\<exists>content. map_of fs filename = Some content \<and> \<not> testViolation pkgName deps content
           \<and> snd (imports' (statements content)) = None
           \<and> set tds = set acc \<union> testNames pkgName deps content"
proof -
  from assms obtain content where c: "map_of fs filename = Some content"
    by (auto simp: testFile_def readFileAndThrowOnBOM_def split: option.splits)
  obtain refs err where i: "imports' (statements content) = (refs, err)"
    by (cases "imports' (statements content)")
  from assms c i obtain t1 where
    r: "referencedFiles content = []" and
    t: "testTypeReferences pkgName (pathJoin pkgName filename) deps (typeReferenceDirectives content) acc = Inr t1" and
    e: "err = None" and
    f: "tds = fold (addTestImport pkgName deps) refs t1"
    by (auto simp: testFile_def readFileAndThrowOnBOM_def createSourceFile_def Let_def
        split: list.splits sum.splits option.splits)
  from testTypeReferences_Inr [OF t] r have "\<not> testViolation pkgName deps content"
    by (auto simp: testViolation_def)
  moreover from testTypeReferences_Inr [OF t] f i
  have "set tds = set acc \<union> testNames pkgName deps content"
    by (auto simp: fold_addTestImport testNames_def)
  ultimately show ?thesis using c i e by simp
qed

lemma testFile_ok:
  assumes "map_of fs filename = Some content" "\<not> testViolation pkgName deps content"
    "snd (imports' (statements content)) = None"
  shows "\<exists>tds. testFile fs pkgName directory deps filename acc = Inr tds"
proof -
  from assms(2) have r: "referencedFiles content = []"
    and t: "\<forall>t \<in> set (typeReferenceDirectives content). t \<notin> set deps \<and> t \<noteq> pkgName"
    by (auto simp: testViolation_def)
  from testTypeReferences_ok [OF t, of "pathJoin pkgName filename" acc] obtain t1 where
    "testTypeReferences pkgName (pathJoin pkgName filename) deps (typeReferenceDirectives content) acc = Inr t1"
    by blast
  with assms(1,3) r show ?thesis
    by (cases "imports' (statements content)")
       (simp add: testFile_def readFileAndThrowOnBOM_def createSourceFile_def)
qed

lemma testFiles_Inr:
  "testFiles fs pkgName directory deps names acc = Inr tds
   \<Longrightarrow> (\<forall>f \<in> set names. wellRead fs f \<and> \<not> violating fs pkgName deps f)
       \<and> set tds = set acc \<union> (\<Union>f \<in> set names. namesOfTest fs pkgName deps f)"
proof (induction names arbitrary: acc)
  case Nil
  then show ?case by simp
next
  case (Cons f names)
  from Cons.prems obtain t1 where
    1: "testFile fs pkgName directory deps f acc = Inr t1" and
    2: "testFiles fs pkgName directory deps names t1 = Inr tds"
    by (auto split: sum.splits)
  from testFile_Inr [OF 1] Cons.IH [OF 2] show ?case
    by (auto simp: wellRead_def violating_def namesOfTest_def)
qed

lemma testFiles_ok:
  "\<forall>f \<in> set names. wellRead fs f \<and> \<not> violating fs pkgName deps f
   \<Longrightarrow> \<exists>tds. testFiles fs pkgName directory deps names acc = Inr tds"
proof (induction names arbitrary: acc)
  case Nil
  show ?case by simp
next
  case (Cons f names)
  then obtain content where c: "map_of fs f = Some content"
    and v: "\<not> testViolation pkgName deps content"
    and i: "snd (imports' (statements content)) = None"
    by (auto simp: wellRead_def violating_def split: option.splits)
  from testFile_ok [OF c v i, of directory acc] obtain t1
    where "testFile fs pkgName directory deps f acc = Inr t1" by blast
  with Cons show ?case by simp
qed

lemmas test_defs = getTestDependencies_def testFile_def readFileAndThrowOnBOM_def
  createSourceFile_def addTestImport_def setAdd_def startsWith_def

text \<open>
  C6 as stated fails in its "only if": \<^verbatim>\<open>getTestDependencies\<close> also fails when
  collecting the imports of a test file throws, as for \<^verbatim>\<open>import x = require(y)\<close>, and
  when a test file cannot be read; neither file holds a path reference or a type
  reference.
\<close>

theorem bad_require_counterexample:
  "getTestDependencies badRequireTests ''pkg'' ''pkg'' [''pkg-tests.ts''] [] = Inl TypeError
   \<and> \<not> violating badRequireTests ''pkg'' [] ''pkg-tests.ts''
   \<and> getTestDependencies [] ''pkg'' ''pkg'' [''pkg-tests.ts''] [] = Inl (ReadFailure ''pkg'' ''pkg-tests.ts'')
   \<and> \<not> violating [] ''pkg'' [] ''pkg-tests.ts''"
  by (simp add: test_defs badRequireTests_def violating_def testViolation_def)

text \<open>
  C6, amended. \<^verbatim>\<open>getTestDependencies\<close> fails whenever a test file that can be read
  holds a path reference, or a type reference that is a known dependency or the package
  itself. When every test file can be read and collecting its imports does not throw,
  it fails in that case only. When it succeeds, the names returned are exactly the type
  references of the test files and those of their imports that are not relative, not
  known dependencies and not the package itself; an import of a known dependency is
  skipped and is no violation.
\<close>

theorem getTestDependencies_outcome:
  "((\<exists>f \<in> set names. violating fs pkgName deps f)
      \<longrightarrow> (\<exists>e. getTestDependencies fs pkgName directory names deps = Inl e))
   \<and> ((\<forall>f \<in> set names. wellRead fs f) \<longrightarrow>
        ((\<exists>e. getTestDependencies fs pkgName directory names deps = Inl e)
           = (\<exists>f \<in> set names. violating fs pkgName deps f)))
   \<and> (getTestDependencies fs pkgName directory names deps = Inr tds \<longrightarrow>
        set tds = (\<Union>f \<in> set names. namesOfTest fs pkgName deps f))"
proof -
  let ?g = "getTestDependencies fs pkgName directory names deps"
  have a: "(\<exists>f \<in> set names. violating fs pkgName deps f) \<longrightarrow> (\<exists>e. ?g = Inl e)"
  proof
    assume v: "\<exists>f \<in> set names. violating fs pkgName deps f"
    show "\<exists>e. ?g = Inl e"
    proof (cases ?g)
      case (Inl e)
      then show ?thesis by blast
    next
      case (Inr t)
      then have "testFiles fs pkgName directory deps names [] = Inr t"
        by (simp add: getTestDependencies_def)
      from testFiles_Inr [OF this] v show ?thesis by blast
    qed
  qed
  have b: "(\<forall>f \<in> set names. wellRead fs f) \<longrightarrow>
        ((\<exists>e. ?g = Inl e) = (\<exists>f \<in> set names. violating fs pkgName deps f))"
  proof
    assume w: "\<forall>f \<in> set names. wellRead fs f"
    show "(\<exists>e. ?g = Inl e) = (\<exists>f \<in> set names. violating fs pkgName deps f)"
    proof
      assume e: "\<exists>e. ?g = Inl e"
      show "\<exists>f \<in> set names. violating fs pkgName deps f"
      proof (rule ccontr)
        assume "\<not> (\<exists>f \<in> set names. violating fs pkgName deps f)"
        with w have "\<forall>f \<in> set names. wellRead fs f \<and> \<not> violating fs pkgName deps f" by blast
        from testFiles_ok [OF this, of directory "[]"] e show False
          by (auto simp: getTestDependencies_def)
      qed
    next
      assume "\<exists>f \<in> set names. violating fs pkgName deps f"
      with a show "\<exists>e. ?g = Inl e" by blast
    qed
  qed
  have c: "?g = Inr tds \<longrightarrow> set tds = (\<Union>f \<in> set names. namesOfTest fs pkgName deps f)"
  proof
    assume "?g = Inr tds"
    then have "testFiles fs pkgName directory deps names [] = Inr tds"
      by (simp add: getTestDependencies_def)
    from testFiles_Inr [OF this] show "set tds = (\<Union>f \<in> set names. namesOfTest fs pkgName deps f)"
      by simp
  qed
  from a b c show ?thesis by blast
qed

theorem getTestDependencies_outcome_witness:
  "wellRead importingTests ''pkg-tests.ts''
   \<and> getTestDependencies importingTests ''pkg'' ''pkg'' [''pkg-tests.ts''] [''known'']
       = Inr [''mocha'', ''novel'']
   \<and> \<not> violating importingTests ''pkg'' [''known''] ''pkg-tests.ts''
   \<and> set [''mocha'', ''novel''] = namesOfTest importingTests ''pkg'' [''known''] ''pkg-tests.ts''
   \<and> violating importingTests ''pkg'' [''mocha''] ''pkg-tests.ts''
   \<and> (\<exists>e. getTestDependencies importingTests ''pkg'' ''pkg'' [''pkg-tests.ts''] [''mocha''] = Inl e)"
proof -
  have w: "wellRead importingTests ''pkg-tests.ts''"
    by (simp add: wellRead_def importingTests_def)
  have g: "getTestDependencies importingTests ''pkg'' ''pkg'' [''pkg-tests.ts''] [''known'']
       = Inr [''mocha'', ''novel'']"
    by (simp add: test_defs importingTests_def)
  have v: "violating importingTests ''pkg'' [''mocha''] ''pkg-tests.ts''"
    by (simp add: violating_def testViolation_def importingTests_def)
  from getTestDependencies_outcome [of "[''pkg-tests.ts'']" importingTests "''pkg''" "[''known'']" "''pkg''"
      "[''mocha'', ''novel'']"]
    getTestDependencies_outcome [of "[''pkg-tests.ts'']" importingTests "''pkg''" "[''mocha'']" "''pkg''" "[]"]
    w g v
  show ?thesis by simp
qed

section \<open>Resolving a reference\<close>

text \<open>
  C7 as stated fails twice. A path reference that cannot be read is reported on the
  console with the same line as a module reference that cannot be resolved: both go
  through \<^verbatim>\<open>readFileAndReportErrors\<close>. And the module reference \<open>.\<close>, which falls back
  to reading \<open>./index.d.ts\<close>, is recorded under the file name \<open>index.d.ts\<close>.
\<close>

theorem exact_reported_counterexample:
  "resolveReference [] ''index.d.ts'' ''pkg'' \<lparr>exact = True, text' = ''lib.d.ts''\<rparr>
     = ([cannotBeRead ''pkg'' ''index.d.ts'' ''lib.d.ts''], Inl (ReadFailure ''pkg'' ''lib.d.ts''))
   \<and> fst (resolveReference [] ''index.d.ts'' ''pkg'' \<lparr>exact = True, text' = ''lib.d.ts''\<rparr>)
     = fst (resolveReference [] ''index.d.ts'' ''pkg'' \<lparr>exact = False, text' = ''lib.d.ts''\<rparr>)
   \<and> resolveModule [(''./index.d.ts'', emptyFile)] ''a.d.ts'' ''pkg'' ''.''
     = ([], Inr (''index.d.ts'', emptyFile))
   \<and> joinPaths ''.'' ''index.d.ts'' \<noteq> ''index.d.ts''"
  by (simp add: resolveReference_def resolveModule_def readFileAndReportErrors_def
      readFileAndThrowOnBOM_def joinPaths_def endsWith_def)

text \<open>
  C7, amended. A module reference \<open>t\<close> is first read as \<open>t.d.ts\<close>; if that read fails,
  it is read as \<open>t\<close>, less one trailing slash, joined with \<open>index.d.ts\<close>, and that path is
  the resolved file name, except that \<open>./index.d.ts\<close> is recorded as \<open>index.d.ts\<close>. If the
  second read fails too, one line naming the directory, the referencing file and the
  reference text is written to the console and the error of the second read is thrown
  again, unchanged. A path reference is read as it stands, and a failure of that read is
  reported on the console in the same way before it is thrown again.
\<close>

theorem resolution_outcomes:
  "resolveModule fs referencedFrom directory t =
     (case map_of fs (t @ ''.d.ts'') of
        Some content \<Rightarrow> ([], Inr (t @ ''.d.ts'', content))
      | None \<Rightarrow>
          (let index = (if endsWith t ''/'' then take (length t - 1) t else t) @ ''/index.d.ts'' in
           case map_of fs index of
             Some content \<Rightarrow>
               ([], Inr (if index = ''./index.d.ts'' then ''index.d.ts'' else index, content))
           | None \<Rightarrow>
               ([cannotBeRead directory referencedFrom t], Inl (ReadFailure directory index))))
   \<and> resolveReference fs referencedFrom directory \<lparr>exact = True, text' = t\<rparr> =
     (case map_of fs t of
        Some content \<Rightarrow> ([], Inr (t, content))
      | None \<Rightarrow> ([cannotBeRead directory referencedFrom t], Inl (ReadFailure directory t)))
   \<and> resolveReference fs referencedFrom directory \<lparr>exact = False, text' = t\<rparr>
     = resolveModule fs referencedFrom directory t"
proof -
  let ?index = "(if endsWith t ''/'' then take (length t - 1) t else t) @ ''/index.d.ts''"
  have m: "resolveModule fs referencedFrom directory t =
     (case map_of fs (t @ ''.d.ts'') of
        Some content \<Rightarrow> ([], Inr (t @ ''.d.ts'', content))
      | None \<Rightarrow>
          (let index = ?index in
           case map_of fs index of
             Some content \<Rightarrow>
               ([], Inr (if index = ''./index.d.ts'' then ''index.d.ts'' else index, content))
           | None \<Rightarrow>
               ([cannotBeRead directory referencedFrom t], Inl (ReadFailure directory index))))"
  proof (cases "map_of fs (t @ ''.d.ts'')")
    case (Some content)
    then show ?thesis by (simp add: resolveModule_def readFileAndThrowOnBOM_def)
  next
    case None
    have j: "joinPaths (if endsWith t ''/'' then take (length t - 1) t else t) ''index.d.ts'' = ?index"
      by (simp add: joinPaths_def)
    show ?thesis
    proof (cases "map_of fs ?index")
      case None
      with \<open>map_of fs (t @ ''.d.ts'') = None\<close> show ?thesis
        unfolding resolveModule_def readFileAndReportErrors_def readFileAndThrowOnBOM_def Let_def j
        by simp
    next
      case (Some content)
      with \<open>map_of fs (t @ ''.d.ts'') = None\<close> show ?thesis
        unfolding resolveModule_def readFileAndReportErrors_def readFileAndThrowOnBOM_def Let_def j
        by simp
    qed
  qed
  have e: "resolveReference fs referencedFrom directory \<lparr>exact = True, text' = t\<rparr> =
     (case map_of fs t of
        Some content \<Rightarrow> ([], Inr (t, content))
      | None \<Rightarrow> ([cannotBeRead directory referencedFrom t], Inl (ReadFailure directory t)))"
    by (cases "map_of fs t")
       (simp_all add: resolveReference_def readFileAndReportErrors_def readFileAndThrowOnBOM_def)
  have n: "resolveReference fs referencedFrom directory \<lparr>exact = False, text' = t\<rparr>
     = resolveModule fs referencedFrom directory t"
    by (simp add: resolveReference_def)
  from m e n show ?thesis by (simp only: simp_thms)
qed

theorem resolution_outcomes_witness:
  "resolveModule [(''lib/index.d.ts'', emptyFile)] ''index.d.ts'' ''pkg'' ''lib/''
     = ([], Inr (''lib/index.d.ts'', emptyFile))
   \<and> resolveModule [(''lib/index.d.ts'', emptyFile)] ''index.d.ts'' ''pkg'' ''util''
     = ([cannotBeRead ''pkg'' ''index.d.ts'' ''util''], Inl (ReadFailure ''pkg'' ''util/index.d.ts''))"
  using resolution_outcomes [of "[(''lib/index.d.ts'', emptyFile)]" "''index.d.ts''" "''pkg''" "''lib/''"]
    resolution_outcomes [of "[(''lib/index.d.ts'', emptyFile)]" "''index.d.ts''" "''pkg''" "''util''"]
  by (simp add: endsWith_def)

section \<open>Invariants of the walk\<close>

lemma resolveReference_from:
  "snd (resolveReference fs referencedFrom dir r) = snd (resolveReference fs other dir r)"
  by (simp add: resolveReference_def resolveModule_def readFileAndReportErrors_def Let_def
      split: sum.splits)

lemma resolved_iff:
  "snd (resolveReference fs referencedFrom dir r) = Inr (n, content)
     \<longleftrightarrow> resolved fs dir r = Some (n, content)"
  using resolveReference_from [of fs referencedFrom dir r "[]"]
  by (auto simp: resolved_def split: sum.splits)

lemma outgoing_step:
  assumes "resolved fs dir r = Some (n, content)"
    and "referencedFiles' (createSourceFile n content) (dirname n) dir = Inr refs"
  shows "outgoing fs dir r = Some refs"
  using assms by (simp add: outgoing_def)

lemma addReference_Inr:
  "addReference f sub dir r = Inr r'
   \<Longrightarrow> \<not> hasWindowsSlashes (text' r) \<and> \<not> escapes sub (text' r)
       \<and> r' = \<lparr>exact = exact r, text' = normalizeSlashes (normalize (joinPaths sub (text' r)))\<rparr>"
  by (auto simp: addReference_def assertNoWindowsSlashes_def escapes_def Let_def split: if_splits)

lemma addReference_ok:
  "\<not> hasWindowsSlashes (text' r) \<Longrightarrow> \<not> escapes sub (text' r)
   \<Longrightarrow> \<exists>r'. addReference f sub dir r = Inr r'"
  by (simp add: addReference_def assertNoWindowsSlashes_def escapes_def)

lemma addReferences_Inr:
  "addReferences f sub dir raw = Inr refs
   \<Longrightarrow> \<forall>r \<in> set raw. \<not> hasWindowsSlashes (text' r) \<and> \<not> escapes sub (text' r)"
proof (induction raw arbitrary: refs)
  case Nil
  show ?case by simp
next
  case (Cons r raw)
  from Cons.prems obtain r' rs' where
    1: "addReference f sub dir r = Inr r'" and 2: "addReferences f sub dir raw = Inr rs'"
    by (auto split: sum.splits)
  from addReference_Inr [OF 1] Cons.IH [OF 2] show ?case by simp
qed

lemma addReferences_ok:
  "\<forall>r \<in> set raw. \<not> hasWindowsSlashes (text' r) \<and> \<not> escapes sub (text' r)
   \<Longrightarrow> \<exists>refs. addReferences f sub dir raw = Inr refs"
proof (induction raw)
  case Nil
  show ?case by simp
next
  case (Cons r raw)
  then obtain r' refs where "addReference f sub dir r = Inr r'" "addReferences f sub dir raw = Inr refs"
    using addReference_ok [of r sub f dir] by auto
  then show ?case by simp
qed

lemma rawReferences_error:
  "snd (rawReferences (createSourceFile n content)) = snd (imports' (statements content))"
  by (cases "imports' (statements content)") (simp add: rawReferences_def createSourceFile_def)

lemma referencedFiles_collectable:
  "(\<exists>refs. referencedFiles' (createSourceFile n content) (dirname n) dir = Inr refs)
     \<longleftrightarrow> collectable n content"
proof -
  obtain raw err where r: "rawReferences (createSourceFile n content) = (raw, err)"
    by (cases "rawReferences (createSourceFile n content)")
  with rawReferences_error [of n content] have e: "snd (imports' (statements content)) = err" by simp
  show ?thesis
  proof
    assume "\<exists>refs. referencedFiles' (createSourceFile n content) (dirname n) dir = Inr refs"
    then obtain refs rs where "addReferences (fileName (createSourceFile n content)) (dirname n) dir raw = Inr rs"
      and "err = None"
      using r by (auto simp: referencedFiles'_def split: sum.splits option.splits)
    with addReferences_Inr [OF this(1)] r e show "collectable n content"
      by (simp add: collectable_def list_all_iff)
  next
    assume "collectable n content"
    with r e have n: "err = None"
      and a: "\<forall>r \<in> set raw. \<not> hasWindowsSlashes (text' r) \<and> \<not> escapes (dirname n) (text' r)"
      by (simp_all add: collectable_def list_all_iff)
    from addReferences_ok [OF a, of "fileName (createSourceFile n content)" dir] n r
    show "\<exists>refs. referencedFiles' (createSourceFile n content) (dirname n) dir = Inr refs"
      by (auto simp: referencedFiles'_def)
  qed
qed

lemma outgoing_collectable:
  "outgoing fs dir r \<noteq> None
     \<longleftrightarrow> (\<exists>n content. resolved fs dir r = Some (n, content) \<and> collectable n content)"
proof (cases "resolved fs dir r")
  case None
  then show ?thesis by (simp add: outgoing_def)
next
  case (Some x)
  obtain n content where x: "x = (n, content)" by (cases x)
  with Some referencedFiles_collectable [of n content dir] show ?thesis
    by (auto simp: outgoing_def split: sum.splits)
qed

lemma chosen_in: "xs \<noteq> [] \<Longrightarrow> xs ! (k mod length xs) \<in> set xs"
  by simp

lemma set_without: "set (without i xs) \<subseteq> set xs"
  unfolding without_def using set_take_subset [of i xs] set_drop_subset [of "Suc i" xs] by auto

lemma set_without_insert: "i < length xs \<Longrightarrow> set xs \<subseteq> insert (xs ! i) (set (without i xs))"
proof
  fix x assume i: "i < length xs" and "x \<in> set xs"
  then obtain j where j: "j < length xs" "xs ! j = x" by (auto simp: in_set_conv_nth)
  show "x \<in> insert (xs ! i) (set (without i xs))"
  proof (cases "j = i")
    case True
    with j show ?thesis by simp
  next
    case False
    have "xs = take i xs @ xs ! i # drop (Suc i) xs" using i by (simp add: id_take_nth_drop)
    then have "set xs = set (take i xs) \<union> {xs ! i} \<union> set (drop (Suc i) xs)"
      by (metis list.simps(15) set_append Un_insert_right sup_bot.right_neutral Un_assoc insert_is_Un)
    with \<open>x \<in> set xs\<close> show ?thesis by (auto simp: without_def)
  qed
qed

lemma beginAll_inFlight_sub:
  "set (snd (beginAll referencedFrom rs (seen, inFlight)))
     \<subseteq> set inFlight \<union> Pair referencedFrom ` set rs"
proof (induction rs arbitrary: seen inFlight)
  case Nil
  show ?case by simp
next
  case (Cons a rs)
  show ?case
  proof (cases "text' a \<in> set seen")
    case True
    with Cons.IH [of seen inFlight] show ?thesis by auto
  next
    case False
    with Cons.IH [of "seen @ [text' a]" "inFlight @ [(referencedFrom, a)]"] show ?thesis by auto
  qed
qed

lemma beginAll_inFlight_sup:
  "set inFlight \<subseteq> set (snd (beginAll referencedFrom rs (seen, inFlight)))"
proof (induction rs arbitrary: seen inFlight)
  case Nil
  show ?case by simp
next
  case (Cons a rs)
  show ?case
  proof (cases "text' a \<in> set seen")
    case True
    with Cons.IH [of inFlight seen] show ?thesis by auto
  next
    case False
    with Cons.IH [of "inFlight @ [(referencedFrom, a)]" "seen @ [text' a]"] show ?thesis by auto
  qed
qed

lemma beginAll_started:
  "r \<in> set rs \<Longrightarrow> text' r \<notin> set seen
   \<Longrightarrow> \<exists>r' \<in> set rs. text' r' = text' r
         \<and> (referencedFrom, r') \<in> set (snd (beginAll referencedFrom rs (seen, inFlight)))"
proof (induction rs arbitrary: seen inFlight)
  case Nil
  then show ?case by simp
next
  case (Cons a rs)
  show ?case
  proof (cases "text' a = text' r")
    case True
    with Cons.prems have "(referencedFrom, a) \<in> set (inFlight @ [(referencedFrom, a)])" by simp
    with beginAll_inFlight_sup [of "inFlight @ [(referencedFrom, a)]" referencedFrom rs "seen @ [text' a]"]
    have "(referencedFrom, a) \<in> set (snd (beginAll referencedFrom (a # rs) (seen, inFlight)))"
      using True Cons.prems by auto
    with True show ?thesis by auto
  next
    case False
    with Cons.prems have r: "r \<in> set rs" by auto
    show ?thesis
    proof (cases "text' a \<in> set seen")
      case True
      with Cons.IH [OF r Cons.prems(2), of inFlight] show ?thesis by auto
    next
      case a: False
      from False Cons.prems have "text' r \<notin> set (seen @ [text' a])" by auto
      from Cons.IH [OF r this, of "inFlight @ [(referencedFrom, a)]"] a show ?thesis by auto
    qed
  qed
qed

lemma recur_Cons:
  assumes "recur sched fs dir (seen, all') (p # ps) = Inr st'"
  obtains i referencedFrom r n content refs seen' inFlight' where
    "i < length (p # ps)" "(p # ps) ! i = (referencedFrom, r)"
    "i = sched seen (p # ps) mod length (p # ps)"
    "resolved fs dir r = Some (n, content)"
    "referencedFiles' (createSourceFile n content) (dirname n) dir = Inr refs"
    "beginAll n refs (seen, without i (p # ps)) = (seen', inFlight')"
    "recur sched fs dir (seen', AList.update n (createSourceFile n content) all') inFlight' = Inr st'"
proof -
  let ?i = "sched seen (p # ps) mod length (p # ps)"
  obtain referencedFrom r where c: "(p # ps) ! ?i = (referencedFrom, r)"
    by (cases "(p # ps) ! ?i")
  from assms c obtain n content where
    res: "snd (resolveReference fs referencedFrom dir r) = Inr (n, content)"
    by (auto simp: Let_def split: sum.splits)
  from assms c res obtain refs where
    rf: "referencedFiles' (createSourceFile n content) (dirname n) dir = Inr refs"
    by (auto simp: Let_def split: sum.splits)
  obtain seen' inFlight' where b: "beginAll n refs (seen, without ?i (p # ps)) = (seen', inFlight')"
    by (cases "beginAll n refs (seen, without ?i (p # ps))")
  from assms c res rf b
  have "recur sched fs dir (seen', AList.update n (createSourceFile n content) all') inFlight' = Inr st'"
    by (simp add: Let_def)
  moreover have "?i < length (p # ps)" by simp
  ultimately show thesis using that c res rf b by (simp add: resolved_iff)
qed

lemma recur_invariant:
  "recur sched fs dir st inFlight = Inr st' \<Longrightarrow> I st inFlight
   \<Longrightarrow> (\<And>seen all' inFlight i referencedFrom r n content refs seen' inFlight'.
      I (seen, all') inFlight \<Longrightarrow> i < length inFlight \<Longrightarrow> inFlight ! i = (referencedFrom, r)
      \<Longrightarrow> resolved fs dir r = Some (n, content)
      \<Longrightarrow> referencedFiles' (createSourceFile n content) (dirname n) dir = Inr refs
      \<Longrightarrow> beginAll n refs (seen, without i inFlight) = (seen', inFlight')
      \<Longrightarrow> I (seen', AList.update n (createSourceFile n content) all') inFlight')
   \<Longrightarrow> I st' []"
proof (induction sched fs dir st inFlight rule: recur.induct)
  case (1 sched fs dir seen all')
  then show ?case by simp
next
  case (2 sched fs dir seen all' p ps)
  let ?i = "sched seen (p # ps) mod length (p # ps)"
  from "2.prems"(1) obtain i referencedFrom r n content refs seen' inFlight' where
    i: "i < length (p # ps)" and c: "(p # ps) ! i = (referencedFrom, r)" and
    ie: "i = ?i" and
    res: "resolved fs dir r = Some (n, content)" and
    rf: "referencedFiles' (createSourceFile n content) (dirname n) dir = Inr refs" and
    b: "beginAll n refs (seen, without i (p # ps)) = (seen', inFlight')" and
    rec: "recur sched fs dir (seen', AList.update n (createSourceFile n content) all') inFlight' = Inr st'"
    by (rule recur_Cons)
  have I': "I (seen', AList.update n (createSourceFile n content) all') inFlight'"
    by (rule "2.prems"(3) [OF "2.prems"(2) i c res rf b])
  have res': "snd (resolveReference fs (fst ((p # ps) ! ?i)) dir (snd ((p # ps) ! ?i))) = Inr (n, content)"
    using res c ie by (simp add: resolved_iff)
  have b': "(seen', inFlight') = beginAll n refs (seen, without ?i (p # ps))"
    using b ie by simp
  show ?case
    by (rule "2.IH" [OF refl refl refl res' refl refl rf b' rec I' "2.prems"(3)])
qed


lemma recur_progress:
  "I st inFlight
   \<Longrightarrow> (\<And>seen all' inFlight i referencedFrom r n content refs seen' inFlight'.
      I (seen, all') inFlight \<Longrightarrow> i < length inFlight \<Longrightarrow> inFlight ! i = (referencedFrom, r)
      \<Longrightarrow> resolved fs dir r = Some (n, content)
      \<Longrightarrow> referencedFiles' (createSourceFile n content) (dirname n) dir = Inr refs
      \<Longrightarrow> beginAll n refs (seen, without i inFlight) = (seen', inFlight')
      \<Longrightarrow> I (seen', AList.update n (createSourceFile n content) all') inFlight')
   \<Longrightarrow> (\<And>seen all' inFlight i referencedFrom r.
      I (seen, all') inFlight \<Longrightarrow> i < length inFlight \<Longrightarrow> inFlight ! i = (referencedFrom, r)
      \<Longrightarrow> \<exists>n content refs. resolved fs dir r = Some (n, content)
            \<and> referencedFiles' (createSourceFile n content) (dirname n) dir = Inr refs)
   \<Longrightarrow> \<exists>st'. recur sched fs dir st inFlight = Inr st'"
proof (induction sched fs dir st inFlight rule: recur.induct)
  case (1 sched fs dir seen all')
  show ?case by simp
next
  case (2 sched fs dir seen all' p ps)
  let ?i = "sched seen (p # ps) mod length (p # ps)"
  have i: "?i < length (p # ps)" by simp
  obtain referencedFrom r where c: "(p # ps) ! ?i = (referencedFrom, r)"
    by (cases "(p # ps) ! ?i")
  from "2.prems"(3) [OF "2.prems"(1) i c] obtain n content refs where
    res: "resolved fs dir r = Some (n, content)" and
    rf: "referencedFiles' (createSourceFile n content) (dirname n) dir = Inr refs"
    by blast
  obtain seen' inFlight' where b: "beginAll n refs (seen, without ?i (p # ps)) = (seen', inFlight')"
    by (cases "beginAll n refs (seen, without ?i (p # ps))")
  have I': "I (seen', AList.update n (createSourceFile n content) all') inFlight'"
    by (rule "2.prems"(2) [OF "2.prems"(1) i c res rf b])
  have res': "snd (resolveReference fs (fst ((p # ps) ! ?i)) dir (snd ((p # ps) ! ?i))) = Inr (n, content)"
    using res c by (simp add: resolved_iff)
  have "\<exists>st'. recur sched fs dir (seen', AList.update n (createSourceFile n content) all') inFlight' = Inr st'"
    by (rule "2.IH" [OF refl refl refl res' refl refl rf b [symmetric] I' "2.prems"(2) "2.prems"(3)])
  with res' rf b show ?case by (simp add: Let_def)
qed

lemma set_update_subset: "set (AList.update k v al) \<subseteq> insert (k, v) (set al)"
  by (induction al) auto

lemma keys_update: "fst ` set (AList.update k v al) = insert k (fst ` set al)"
  using dom_update [of k v al] by simp

lemma taken_step:
  assumes "\<forall>p \<in> set all'. referencesTaken dir p"
    and "referencedFiles' (createSourceFile n content) (dirname n) dir = Inr refs"
  shows "\<forall>p \<in> set (AList.update n (createSourceFile n content) all'). referencesTaken dir p"
  using set_update_subset [of n "createSourceFile n content" all'] assms
  by (auto simp: referencesTaken_def)

lemma recur_referencesTaken:
  assumes "recur sched fs dir st inFlight = Inr st'" "\<forall>p \<in> set (snd st). referencesTaken dir p"
  shows "\<forall>p \<in> set (snd st'). referencesTaken dir p"
  using recur_invariant [where I = "\<lambda>st inFlight. \<forall>p \<in> set (snd st). referencesTaken dir p",
      OF assms] taken_step
  by simp

lemma sound_step:
  assumes inv: "walkSound fs dir entries (seen, all') inFlight"
    and i: "i < length inFlight" and c: "inFlight ! i = (referencedFrom, r)"
    and res: "resolved fs dir r = Some (n, content)"
    and rf: "referencedFiles' (createSourceFile n content) (dirname n) dir = Inr refs"
    and b: "beginAll n refs (seen, without i inFlight) = (seen', inFlight')"
  shows "walkSound fs dir entries (seen', AList.update n (createSourceFile n content) all') inFlight'"
proof -
  from i c have "(referencedFrom, r) \<in> set inFlight" by (metis nth_mem)
  with inv have r: "r \<in> reachable fs dir entries" by (force simp: walkSound_def)
  have ch: "\<forall>r' \<in> set refs. r' \<in> reachable fs dir entries"
    using reachable.step [OF r outgoing_step [OF res rf]] by blast
  have "set inFlight' \<subseteq> set inFlight \<union> Pair n ` set refs"
    using beginAll_inFlight_sub [of n refs seen "without i inFlight"] b set_without [of i inFlight]
    by auto
  with ch inv have 1: "\<forall>p \<in> set inFlight'. snd p \<in> reachable fs dir entries"
    by (auto simp: walkSound_def)
  have 2: "\<forall>p \<in> set (AList.update n (createSourceFile n content) all').
             \<exists>r \<in> reachable fs dir entries. \<exists>content.
               resolved fs dir r = Some (fst p, content) \<and> snd p = createSourceFile (fst p) content"
  proof
    fix p assume "p \<in> set (AList.update n (createSourceFile n content) all')"
    with set_update_subset [of n "createSourceFile n content" all']
    have "p = (n, createSourceFile n content) \<or> p \<in> set all'" by blast
    then show "\<exists>r \<in> reachable fs dir entries. \<exists>content.
               resolved fs dir r = Some (fst p, content) \<and> snd p = createSourceFile (fst p) content"
    proof
      assume "p = (n, createSourceFile n content)"
      with r res show ?thesis by auto
    next
      assume "p \<in> set all'"
      with inv show ?thesis by (simp add: walkSound_def)
    qed
  qed
  have 3: "distinct (map fst (AList.update n (createSourceFile n content) all'))"
    using inv by (simp add: walkSound_def distinct_update)
  from 1 2 3 show ?thesis by (simp add: walkSound_def)
qed

lemma complete_step:
  assumes snd: "walkSound fs dir entries (seen, all') inFlight"
    and inv: "walkComplete fs dir entries (seen, all') inFlight"
    and det: "textDetermines fs dir entries"
    and i: "i < length inFlight" and c: "inFlight ! i = (referencedFrom, r)"
    and res: "resolved fs dir r = Some (n, content)"
    and rf: "referencedFiles' (createSourceFile n content) (dirname n) dir = Inr refs"
    and b: "beginAll n refs (seen, without i inFlight) = (seen', inFlight')"
  shows "walkComplete fs dir entries (seen', AList.update n (createSourceFile n content) all') inFlight'"
proof -
  from i c have "(referencedFrom, r) \<in> set inFlight" by (metis nth_mem)
  with snd have r: "r \<in> reachable fs dir entries" by (force simp: walkSound_def)
  have ch: "\<forall>r' \<in> set refs. r' \<in> reachable fs dir entries"
    using reachable.step [OF r outgoing_step [OF res rf]] by blast
  have s': "set seen' = set seen \<union> text' ` set refs"
    using beginAll_seen [of n refs seen "without i inFlight"] b by simp
  have sup: "set (without i inFlight) \<subseteq> set inFlight'"
    using beginAll_inFlight_sup [of "without i inFlight" n refs seen] b by simp
  have rest: "set inFlight \<subseteq> insert (referencedFrom, r) (set (without i inFlight))"
    using set_without_insert [OF i] c by simp
  show ?thesis
    unfolding walkComplete_def fst_conv snd_conv keys_update
  proof (intro conjI ballI impI)
    fix f assume "f \<in> set entries"
    with inv s' show "f \<in> set seen'" by (simp add: walkComplete_def)
  next
    fix r1 assume r1: "r1 \<in> reachable fs dir entries" and t: "text' r1 \<in> set seen'"
    let ?done = "\<lambda>r1. (\<exists>refs. outgoing fs dir r1 = Some refs \<and> text' ` set refs \<subseteq> set seen')
        \<and> (\<exists>n' content'. resolved fs dir r1 = Some (n', content') \<and> n' \<in> insert n (fst ` set all'))"
    have rdone: "?done r"
      using outgoing_step [OF res rf] res s' by auto
    show "r1 \<in> snd ` set inFlight' \<or> ?done r1"
    proof (cases "text' r1 \<in> set seen")
      case True
      with inv r1 have "r1 \<in> snd ` set inFlight
          \<or> ((\<exists>refs. outgoing fs dir r1 = Some refs \<and> text' ` set refs \<subseteq> set seen)
             \<and> (\<exists>n' content'. resolved fs dir r1 = Some (n', content') \<and> n' \<in> fst ` set all'))"
        unfolding walkComplete_def fst_conv snd_conv by blast
      then show ?thesis
      proof
        assume "r1 \<in> snd ` set inFlight"
        with rest have "r1 = r \<or> r1 \<in> snd ` set (without i inFlight)" by force
        with sup rdone show ?thesis by auto
      next
        assume "(\<exists>refs. outgoing fs dir r1 = Some refs \<and> text' ` set refs \<subseteq> set seen)
             \<and> (\<exists>n' content'. resolved fs dir r1 = Some (n', content') \<and> n' \<in> fst ` set all')"
        then obtain refs1 n1 content1 where
          o: "outgoing fs dir r1 = Some refs1" "text' ` set refs1 \<subseteq> set seen" and
          k: "resolved fs dir r1 = Some (n1, content1)" "n1 \<in> fst ` set all'"
          by blast
        from o(2) s' have "text' ` set refs1 \<subseteq> set seen'" by blast
        with o(1) k have "?done r1" by blast
        then show ?thesis by simp
      qed
    next
      case False
      with t s' obtain r2 where r2: "r2 \<in> set refs" "text' r2 = text' r1" by auto
      from beginAll_started [OF r2(1), of seen n "without i inFlight"] False r2(2) b
      obtain r3 where r3: "r3 \<in> set refs" "text' r3 = text' r1" "(n, r3) \<in> set inFlight'"
        by auto
      from ch r3(1) have "r3 \<in> reachable fs dir entries" by simp
      with det r1 r3(2) have "r3 = r1" by (simp add: textDetermines_def)
      with r3(3) show ?thesis by force
    qed
  qed
qed

lemma both_step:
  assumes "textDetermines fs dir entries"
    and "walkBoth fs dir entries (seen, all') inFlight"
    and "i < length inFlight" and "inFlight ! i = (referencedFrom, r)"
    and "resolved fs dir r = Some (n, content)"
    and "referencedFiles' (createSourceFile n content) (dirname n) dir = Inr refs"
    and "beginAll n refs (seen, without i inFlight) = (seen', inFlight')"
  shows "walkBoth fs dir entries (seen', AList.update n (createSourceFile n content) all') inFlight'"
  using assms sound_step [of fs dir entries seen all' inFlight i referencedFrom r n content refs seen' inFlight']
    complete_step [of fs dir entries seen all' inFlight i referencedFrom r n content refs seen' inFlight']
  by (simp add: walkBoth_def)

lemma recur_sound:
  assumes "recur sched fs dir st inFlight = Inr st'" "walkSound fs dir entries st inFlight"
  shows "walkSound fs dir entries st' []"
  by (rule recur_invariant [where I = "walkSound fs dir entries", OF assms]) (rule sound_step)

lemma recur_both:
  assumes "recur sched fs dir st inFlight = Inr st'" "walkBoth fs dir entries st inFlight"
    and det: "textDetermines fs dir entries"
  shows "walkBoth fs dir entries st' []"
  by (rule recur_invariant [where I = "walkBoth fs dir entries", OF assms(1,2)])
     (rule both_step [OF det])


lemma complete_all_seen:
  assumes "walkComplete fs dir entries st []" "r \<in> reachable fs dir entries"
  shows "text' r \<in> set (fst st)"
  using assms(2)
proof (induction rule: reachable.induct)
  case (entry filename)
  with assms(1) show ?case by (simp add: walkComplete_def)
next
  case (step r refs r')
  from assms(1) step(1,4) obtain refs0 where
    "outgoing fs dir r = Some refs0" "text' ` set refs0 \<subseteq> set (fst st)"
    unfolding walkComplete_def by fastforce
  with step(2,3) show ?case by auto
qed

lemma complete_done:
  assumes "walkComplete fs dir entries st []" "r \<in> reachable fs dir entries"
  shows "outgoing fs dir r \<noteq> None
       \<and> (\<exists>n content. resolved fs dir r = Some (n, content) \<and> n \<in> fst ` set (snd st))"
  using assms complete_all_seen [OF assms] unfolding walkComplete_def by fastforce

lemma sound_keys:
  "walkSound fs dir entries st [] \<Longrightarrow> fst ` set (snd st) \<subseteq> reachableFiles fs dir entries"
  by (fastforce simp: walkSound_def reachableFiles_def)

lemma complete_keys:
  assumes "walkComplete fs dir entries st []"
  shows "reachableFiles fs dir entries \<subseteq> fst ` set (snd st)"
proof
  fix n assume "n \<in> reachableFiles fs dir entries"
  then obtain r content where r: "r \<in> reachable fs dir entries"
    and res: "resolved fs dir r = Some (n, content)"
    by (auto simp: reachableFiles_def)
  from complete_done [OF assms r] res show "n \<in> fst ` set (snd st)" by auto
qed

lemma allReferencedFiles_recur:
  assumes "beginAll ''tsconfig.json'' (entryReferences entries) ([], []) = (seen, inFlight)"
  shows "allReferencedFiles sched fs dir entries = Inr all'
     \<longleftrightarrow> (\<exists>seen'. recur sched fs dir (seen, []) inFlight = Inr (seen', all'))"
  using assms by (auto simp: allReferencedFiles_def entryReferences_def split: sum.splits)

lemma initial_inFlight:
  assumes "beginAll ''tsconfig.json'' (entryReferences entries) ([], []) = (seen, inFlight)"
  shows "set inFlight = Pair ''tsconfig.json'' ` set (entryReferences entries)"
    and "set seen = set entries"
proof -
  have sub: "set inFlight \<subseteq> Pair ''tsconfig.json'' ` set (entryReferences entries)"
    using beginAll_inFlight_sub [of "''tsconfig.json''" "entryReferences entries" "[]" "[]"] assms
    by simp
  have "Pair ''tsconfig.json'' ` set (entryReferences entries) \<subseteq> set inFlight"
  proof
    fix p assume "p \<in> Pair ''tsconfig.json'' ` set (entryReferences entries)"
    then obtain r where r: "r \<in> set (entryReferences entries)" "p = (''tsconfig.json'', r)" by auto
    from beginAll_started [OF r(1), of "[]" "''tsconfig.json''" "[]"] assms
    obtain r' where r': "r' \<in> set (entryReferences entries)" "text' r' = text' r"
      "(''tsconfig.json'', r') \<in> set inFlight" by auto
    from r(1) r'(1,2) have "r' = r" by (auto simp: entryReferences_def)
    with r'(3) r(2) show "p \<in> set inFlight" by simp
  qed
  with sub show "set inFlight = Pair ''tsconfig.json'' ` set (entryReferences entries)" by blast
  show "set seen = set entries"
    using beginAll_seen [of "''tsconfig.json''" "entryReferences entries" "[]" "[]"] assms
    by (auto simp: entryReferences_def image_iff)
qed

lemma entry_reachable:
  "r \<in> set (entryReferences entries) \<Longrightarrow> r \<in> reachable fs dir entries"
  by (auto simp: entryReferences_def intro: reachable.entry)

lemma initial_sound:
  assumes "beginAll ''tsconfig.json'' (entryReferences entries) ([], []) = (seen, inFlight)"
  shows "walkSound fs dir entries (seen, []) inFlight"
  using initial_inFlight(1) [OF assms] entry_reachable [of _ entries fs dir]
  by (auto simp: walkSound_def)

lemma initial_complete:
  assumes "beginAll ''tsconfig.json'' (entryReferences entries) ([], []) = (seen, inFlight)"
    and det: "textDetermines fs dir entries"
  shows "walkComplete fs dir entries (seen, []) inFlight"
  unfolding walkComplete_def fst_conv snd_conv
proof (intro conjI ballI impI)
  fix f assume "f \<in> set entries"
  with initial_inFlight(2) [OF assms(1)] show "f \<in> set seen" by simp
next
  fix r assume r: "r \<in> reachable fs dir entries" and t: "text' r \<in> set seen"
  from t initial_inFlight(2) [OF assms(1)] have "text' r \<in> set entries" by simp
  then have e: "\<lparr>exact = True, text' = text' r\<rparr> \<in> set (entryReferences entries)"
    by (auto simp: entryReferences_def)
  from entry_reachable [OF e] det r have "\<lparr>exact = True, text' = text' r\<rparr> = r"
    by (simp add: textDetermines_def)
  with e initial_inFlight(1) [OF assms(1)] have "r \<in> snd ` set inFlight" by force
  then show "r \<in> snd ` set inFlight
         \<or> ((\<exists>refs. outgoing fs dir r = Some refs \<and> text' ` set refs \<subseteq> set seen)
            \<and> (\<exists>n content. resolved fs dir r = Some (n, content) \<and> n \<in> fst ` set []))"
    by simp
qed

lemma recur_succeeds:
  assumes "walkSound fs dir entries st inFlight" "allResolve fs dir entries"
  shows "\<exists>st'. recur sched fs dir st inFlight = Inr st'"
proof (rule recur_progress [where I = "walkSound fs dir entries", OF assms(1)])
  fix seen all' inFlight i referencedFrom r n content refs seen' inFlight'
  assume "walkSound fs dir entries (seen, all') inFlight" "i < length inFlight"
    "inFlight ! i = (referencedFrom, r)" "resolved fs dir r = Some (n, content)"
    "referencedFiles' (createSourceFile n content) (dirname n) dir = Inr refs"
    "beginAll n refs (seen, without i inFlight) = (seen', inFlight')"
  then show "walkSound fs dir entries (seen', AList.update n (createSourceFile n content) all') inFlight'"
    by (rule sound_step)
next
  fix seen all' inFlight i referencedFrom r
  assume s: "walkSound fs dir entries (seen, all') inFlight" and i: "i < length inFlight"
    and c: "inFlight ! i = (referencedFrom, r)"
  from i c have "(referencedFrom, r) \<in> set inFlight" by (metis nth_mem)
  with s have "r \<in> reachable fs dir entries" by (force simp: walkSound_def)
  with assms(2) obtain n content where "resolved fs dir r = Some (n, content)" "collectable n content"
    by (auto simp: allResolve_def)
  with referencedFiles_collectable [of n content dir]
  show "\<exists>n content refs. resolved fs dir r = Some (n, content)
         \<and> referencedFiles' (createSourceFile n content) (dirname n) dir = Inr refs"
    by blast
qed

lemma recur_inFlight_outgoing:
  assumes "recur sched fs dir st inFlight = Inr st'" "p \<in> set inFlight"
  shows "outgoing fs dir (snd p) \<noteq> None"
proof -
  let ?I = "\<lambda>(st :: string list \<times> (string \<times> source_file) list) inFlight.
              p \<in> set inFlight \<or> outgoing fs dir (snd p) \<noteq> None"
  have "?I st' []"
  proof (rule recur_invariant [where I = ?I, OF assms(1)])
    show "?I st inFlight" using assms(2) by simp
  next
    fix seen all' inFlight i referencedFrom r n content refs seen' inFlight'
    assume h: "p \<in> set inFlight \<or> outgoing fs dir (snd p) \<noteq> None" "i < length inFlight"
      "inFlight ! i = (referencedFrom, r)" "resolved fs dir r = Some (n, content)"
      "referencedFiles' (createSourceFile n content) (dirname n) dir = Inr refs"
      "beginAll n refs (seen, without i inFlight) = (seen', inFlight')"
    show "p \<in> set inFlight' \<or> outgoing fs dir (snd p) \<noteq> None"
    proof (cases "p \<in> set inFlight")
      case True
      with set_without_insert [OF h(2)] h(3)
      have "p = (referencedFrom, r) \<or> p \<in> set (without i inFlight)" by auto
      then show ?thesis
      proof
        assume "p = (referencedFrom, r)"
        with outgoing_step [OF h(4,5)] show ?thesis by simp
      next
        assume "p \<in> set (without i inFlight)"
        with beginAll_inFlight_sup [of "without i inFlight" n refs seen] h(6) show ?thesis by auto
      qed
    next
      case False
      with h(1) show ?thesis by simp
    qed
  qed
  then show ?thesis by simp
qed

lemma walk_cyclicPackage:
  "allReferencedFiles sched cyclicPackage ''pkg'' [''a.d.ts'']
     = Inr [(''a.d.ts'', createSourceFile ''a.d.ts'' (snd (cyclicPackage ! 0))),
            (''b.d.ts'', createSourceFile ''b.d.ts'' (snd (cyclicPackage ! 1)))]"
  by (simp add: walk_defs cyclicPackage_def)

lemma clash_walk:
  "allReferencedFiles sched clashPackage ''pkg'' [''a.d.ts'']
     = Inr [(''a.d.ts'', createSourceFile ''a.d.ts'' (snd (clashPackage ! 0))),
            (''b.d.ts'', createSourceFile ''b.d.ts'' emptyFile)]"
  by (simp add: walk_defs clashPackage_def)

lemma escapes_backslash: "escapes (dirname ''index.d.ts'') backslashParent"
  by (simp add: escapes_def dirname_def joinPaths_def normalize_def normalizeSlashes_def
      startsWith_def backslash_def backslashParent_def)

lemma walk_backslash:
  "getModuleInfo sched backslashPackage ''pkg'' ''pkg'' [''index.d.ts'']
     = Inl (WindowsSlashes ''index.d.ts'' backslashParent)"
  by (simp add: walk_defs backslashPackage_def backslashParent_def)


lemma walk_complete:
  assumes h: "allReferencedFiles sched fs dir entries = Inr all'"
    and det: "textDetermines fs dir entries"
  shows "reachableFiles fs dir entries \<subseteq> fst ` set all' \<and> allResolve fs dir entries"
proof -
  obtain seen inFlight where
    b: "beginAll ''tsconfig.json'' (entryReferences entries) ([], []) = (seen, inFlight)"
    by (cases "beginAll ''tsconfig.json'' (entryReferences entries) ([], [])")
  from h allReferencedFiles_recur [OF b, of sched fs dir all'] obtain seen' where
    r: "recur sched fs dir (seen, []) inFlight = Inr (seen', all')" by blast
  have "walkBoth fs dir entries (seen, []) inFlight"
    using initial_sound [OF b] initial_complete [OF b det] by (simp add: walkBoth_def)
  from recur_both [OF r this det]
  have wc: "walkComplete fs dir entries (seen', all') []" by (simp add: walkBoth_def)
  from complete_keys [OF wc] have k: "reachableFiles fs dir entries \<subseteq> fst ` set all'"
    by simp
  have "allResolve fs dir entries"
    unfolding allResolve_def
  proof
    fix r0 assume "r0 \<in> reachable fs dir entries"
    from complete_done [OF wc this] have "outgoing fs dir r0 \<noteq> None" by simp
    then show "\<exists>n content. resolved fs dir r0 = Some (n, content) \<and> collectable n content"
      using outgoing_collectable [of fs dir r0] by blast
  qed
  with k show ?thesis by simp
qed

section \<open>References that leave the package\<close>

lemma referencedFiles_Inr:
  assumes "referencedFiles' src sub dir = Inr refs"
  shows "\<forall>r \<in> set (fst (rawReferences src)). \<not> escapes sub (text' r)"
proof -
  obtain raw err where r: "rawReferences src = (raw, err)" by (cases "rawReferences src")
  with assms obtain rs where "addReferences (fileName src) sub dir raw = Inr rs"
    by (auto simp: referencedFiles'_def split: sum.splits)
  from addReferences_Inr [OF this] r show ?thesis by simp
qed

lemma first_path_reference:
  assumes "referencedFiles content = t # others" "escapes (dirname e) t" "\<not> hasWindowsSlashes t"
  shows "referencedFiles' (createSourceFile e content) (dirname e) dir
           = Inl (IllegalParentReference dir e t)"
proof -
  have "addReference e (dirname e) dir \<lparr>exact = True, text' = t\<rparr>
          = Inl (IllegalParentReference dir e t)"
    using assms(2,3) by (simp add: addReference_def assertNoWindowsSlashes_def escapes_def)
  with assms(1) show ?thesis
    by (cases "imports' (statements content)")
       (simp add: referencedFiles'_def rawReferences_def createSourceFile_def)
qed

lemma single_entry_fails:
  assumes "map_of fs e = Some content"
    and "referencedFiles' (createSourceFile e content) (dirname e) dir = Inl err"
  shows "allReferencedFiles sched fs dir [e] = Inl err"
  using assms
  by (simp add: allReferencedFiles_def resolveReference_def readFileAndReportErrors_def
      readFileAndThrowOnBOM_def without_def)

lemma resolved_exact:
  "map_of fs e = Some content \<Longrightarrow> resolved fs dir \<lparr>exact = True, text' = e\<rparr> = Some (e, content)"
  by (simp add: resolved_def resolveReference_def readFileAndReportErrors_def
      readFileAndThrowOnBOM_def)

lemma entry_fails:
  assumes e: "e \<in> set entries" and m: "map_of fs e = Some content"
    and n: "\<not> collectable e content"
  shows "\<exists>err. allReferencedFiles sched fs dir entries = Inl err"
proof (cases "allReferencedFiles sched fs dir entries")
  case (Inl err)
  then show ?thesis by blast
next
  case (Inr all')
  obtain seen inFlight where
    b: "beginAll ''tsconfig.json'' (entryReferences entries) ([], []) = (seen, inFlight)"
    by (cases "beginAll ''tsconfig.json'' (entryReferences entries) ([], [])")
  from Inr allReferencedFiles_recur [OF b, of sched fs dir all'] obtain seen' where
    r: "recur sched fs dir (seen, []) inFlight = Inr (seen', all')" by blast
  from e have "(''tsconfig.json'', \<lparr>exact = True, text' = e\<rparr>) \<in> set inFlight"
    using initial_inFlight(1) [OF b] by (auto simp: entryReferences_def)
  from recur_inFlight_outgoing [OF r this]
  have "outgoing fs dir \<lparr>exact = True, text' = e\<rparr> \<noteq> None" by simp
  with outgoing_collectable [of fs dir "\<lparr>exact = True, text' = e\<rparr>"] resolved_exact [OF m, of dir] n
  show ?thesis by simp
qed

lemma getModuleInfo_Inl:
  "allReferencedFiles sched fs dir entries = Inl err
   \<Longrightarrow> getModuleInfo sched fs pkg dir entries = Inl err"
  by (simp add: getModuleInfo_def)

lemma escapes_index: "escapes (dirname ''index.d.ts'') ''../x.d.ts''"
  by (simp add: escapes_def dirname_def joinPaths_def normalize_def normalizeSlashes_def
      startsWith_def backslash_def)

text \<open>
  C4 as stated fails for a reference whose text has a backslash: the text
  \<open>..\x.d.ts\<close>, joined to the directory of the file and normalized, is \<open>../x.d.ts\<close>, yet
  the error thrown is that of \<^verbatim>\<open>assertNoWindowsSlashes\<close>, which is checked first, and the
  walk fails with it.
\<close>

theorem backslash_parent_counterexample:
  "normalizeSlashes (normalize (joinPaths (dirname ''index.d.ts'') backslashParent)) = ''../x.d.ts''
   \<and> addReference ''index.d.ts'' (dirname ''index.d.ts'') ''pkg'' \<lparr>exact = True, text' = backslashParent\<rparr>
       = Inl (WindowsSlashes ''index.d.ts'' backslashParent)
   \<and> getModuleInfo firstStarted backslashPackage ''pkg'' ''pkg'' [''index.d.ts'']
       = Inl (WindowsSlashes ''index.d.ts'' backslashParent)"
  using walk_backslash [of firstStarted]
  by (simp add: dirname_def joinPaths_def normalize_def normalizeSlashes_def backslash_def
      backslashParent_def addReference_def assertNoWindowsSlashes_def hasWindowsSlashes_def)

text \<open>
  C4, amended. For a reference of a file that escapes the package, \<^verbatim>\<open>addReference\<close>
  throws: the error of the backslash check when the text has a backslash, and the
  illegal parent reference otherwise. Whatever the order in which the reads complete, a
  walk that succeeds has recorded no file that holds such a reference, path reference
  or relative import, and the walk of a package with an entry file that holds one fails,
  with this error or with one met before it. In particular a package whose only entry
  file has, as its first path reference, one without backslashes that escapes (as
  \<open>../x.d.ts\<close> in \<open>index.d.ts\<close>) makes \<^verbatim>\<open>getModuleInfo\<close> fail with the illegal parent
  reference.
\<close>

theorem parent_reference_fails:
  "(allReferencedFiles sched fs directory entries = Inr all' \<longrightarrow>
      (\<forall>p \<in> set all'. \<forall>r \<in> set (fst (rawReferences (snd p))). \<not> escapes (dirname (fst p)) (text' r)))
   \<and> (escapes subDirectory (text' r) \<longrightarrow>
        addReference f subDirectory directory r
          = Inl (if hasWindowsSlashes (text' r) then WindowsSlashes f (text' r)
                 else IllegalParentReference directory f (text' r)))
   \<and> (e \<in> set entries \<and> map_of fs e = Some content
        \<and> r' \<in> set (fst (rawReferences (createSourceFile e content)))
        \<and> escapes (dirname e) (text' r') \<longrightarrow>
        (\<exists>err. getModuleInfo sched fs packageName directory entries = Inl err))
   \<and> (textDetermines fs directory entries \<and> origin \<in> reachable fs directory entries
        \<and> resolved fs directory origin = Some (n, held)
        \<and> escaping \<in> set (fst (rawReferences (createSourceFile n held)))
        \<and> escapes (dirname n) (text' escaping) \<longrightarrow>
        (\<exists>err. getModuleInfo sched fs packageName directory entries = Inl err))
   \<and> (map_of fs e = Some content \<and> referencedFiles content = t # others
        \<and> escapes (dirname e) t \<and> \<not> hasWindowsSlashes t \<longrightarrow>
        getModuleInfo sched fs packageName directory [e]
          = Inl (IllegalParentReference directory e t))"
proof -
  have a: "allReferencedFiles sched fs directory entries = Inr all' \<longrightarrow>
      (\<forall>p \<in> set all'. \<forall>r \<in> set (fst (rawReferences (snd p))). \<not> escapes (dirname (fst p)) (text' r))"
  proof
    assume h: "allReferencedFiles sched fs directory entries = Inr all'"
    obtain seen inFlight where
      b: "beginAll ''tsconfig.json'' (entryReferences entries) ([], []) = (seen, inFlight)"
      by (cases "beginAll ''tsconfig.json'' (entryReferences entries) ([], [])")
    from h allReferencedFiles_recur [OF b, of sched fs directory all'] obtain seen' where
      "recur sched fs directory (seen, []) inFlight = Inr (seen', all')" by blast
    from recur_referencesTaken [OF this] have "\<forall>p \<in> set all'. referencesTaken directory p"
      by simp
    then show "\<forall>p \<in> set all'. \<forall>r \<in> set (fst (rawReferences (snd p))). \<not> escapes (dirname (fst p)) (text' r)"
      using referencedFiles_Inr by (fastforce simp: referencesTaken_def)
  qed
  have b: "escapes subDirectory (text' r) \<longrightarrow>
        addReference f subDirectory directory r
          = Inl (if hasWindowsSlashes (text' r) then WindowsSlashes f (text' r)
                 else IllegalParentReference directory f (text' r))"
    by (simp add: addReference_def assertNoWindowsSlashes_def escapes_def)
  have c: "e \<in> set entries \<and> map_of fs e = Some content
        \<and> r' \<in> set (fst (rawReferences (createSourceFile e content)))
        \<and> escapes (dirname e) (text' r') \<longrightarrow>
        (\<exists>err. getModuleInfo sched fs packageName directory entries = Inl err)"
  proof
    assume h: "e \<in> set entries \<and> map_of fs e = Some content
        \<and> r' \<in> set (fst (rawReferences (createSourceFile e content)))
        \<and> escapes (dirname e) (text' r')"
    then have "\<not> collectable e content" by (auto simp: collectable_def list_all_iff)
    from entry_fails [OF _ _ this, of entries fs sched directory] h
    show "\<exists>err. getModuleInfo sched fs packageName directory entries = Inl err"
      by (auto dest: getModuleInfo_Inl)
  qed
  have d: "map_of fs e = Some content \<and> referencedFiles content = t # others
        \<and> escapes (dirname e) t \<and> \<not> hasWindowsSlashes t \<longrightarrow>
        getModuleInfo sched fs packageName directory [e]
          = Inl (IllegalParentReference directory e t)"
  proof
    assume h: "map_of fs e = Some content \<and> referencedFiles content = t # others
        \<and> escapes (dirname e) t \<and> \<not> hasWindowsSlashes t"
    from h first_path_reference [of content t others e directory]
    have "referencedFiles' (createSourceFile e content) (dirname e) directory
           = Inl (IllegalParentReference directory e t)" by simp
    from single_entry_fails [OF _ this, of fs sched] h
    show "getModuleInfo sched fs packageName directory [e]
          = Inl (IllegalParentReference directory e t)"
      by (auto dest: getModuleInfo_Inl)
  qed
  have e5: "textDetermines fs directory entries \<and> origin \<in> reachable fs directory entries
        \<and> resolved fs directory origin = Some (n, held)
        \<and> escaping \<in> set (fst (rawReferences (createSourceFile n held)))
        \<and> escapes (dirname n) (text' escaping) \<longrightarrow>
        (\<exists>err. getModuleInfo sched fs packageName directory entries = Inl err)"
  proof
    assume h: "textDetermines fs directory entries \<and> origin \<in> reachable fs directory entries
        \<and> resolved fs directory origin = Some (n, held)
        \<and> escaping \<in> set (fst (rawReferences (createSourceFile n held)))
        \<and> escapes (dirname n) (text' escaping)"
    then have nc: "\<not> collectable n held" by (auto simp: collectable_def list_all_iff)
    show "\<exists>err. getModuleInfo sched fs packageName directory entries = Inl err"
    proof (cases "allReferencedFiles sched fs directory entries")
      case (Inl err)
      then show ?thesis by (auto dest: getModuleInfo_Inl)
    next
      case (Inr all0)
      from walk_complete [OF Inr] h have "allResolve fs directory entries" by simp
      with h nc show ?thesis by (auto simp: allResolve_def)
    qed
  qed
  from a b c d e5 show ?thesis by blast
qed

lemma deep_outgoing:
  "outgoing deepPackage ''pkg'' \<lparr>exact = True, text' = ''index.d.ts''\<rparr>
     = Some [\<lparr>exact = False, text' = ''lib/a''\<rparr>]"
  "outgoing deepPackage ''pkg'' \<lparr>exact = False, text' = ''lib/a''\<rparr> = None"
  "resolved deepPackage ''pkg'' \<lparr>exact = False, text' = ''lib/a''\<rparr>
     = Some (''lib/a.d.ts'', emptyFile\<lparr>referencedFiles := [''../../x.d.ts'']\<rparr>)"
  by (simp_all add: outgoing_def resolved_def walk_defs deepPackage_def)

lemma deep_reachable:
  "r \<in> reachable deepPackage ''pkg'' [''index.d.ts'']
   \<Longrightarrow> r \<in> {\<lparr>exact = True, text' = ''index.d.ts''\<rparr>, \<lparr>exact = False, text' = ''lib/a''\<rparr>}"
proof (induction rule: reachable.induct)
  case (entry filename)
  then show ?case by simp
next
  case (step r refs r')
  then show ?case using deep_outgoing(1,2) by auto
qed

lemma deep_textDetermines: "textDetermines deepPackage ''pkg'' [''index.d.ts'']"
  unfolding textDetermines_def
proof (intro ballI impI)
  fix r r'
  assume "r \<in> reachable deepPackage ''pkg'' [''index.d.ts'']"
    "r' \<in> reachable deepPackage ''pkg'' [''index.d.ts'']" "text' r = text' r'"
  with deep_reachable [of r] deep_reachable [of r'] show "r = r'" by auto
qed

lemma deep_imported:
  "\<lparr>exact = False, text' = ''lib/a''\<rparr> \<in> reachable deepPackage ''pkg'' [''index.d.ts'']"
proof -
  have e: "\<lparr>exact = True, text' = ''index.d.ts''\<rparr> \<in> reachable deepPackage ''pkg'' [''index.d.ts'']"
    by (rule reachable.entry) simp
  show ?thesis by (rule reachable.step [OF e deep_outgoing(1)]) simp
qed

lemma escapes_deep: "escapes (dirname ''lib/a.d.ts'') ''../../x.d.ts''"
  by (simp add: escapes_def dirname_def joinPaths_def normalize_def normalizeSlashes_def
      startsWith_def backslash_def)

theorem parent_reference_fails_witness:
  "map_of escapingPackage ''index.d.ts'' = Some (emptyFile\<lparr>referencedFiles := [''../x.d.ts'']\<rparr>)
   \<and> escapes (dirname ''index.d.ts'') ''../x.d.ts'' \<and> \<not> hasWindowsSlashes ''../x.d.ts''
   \<and> getModuleInfo firstStarted escapingPackage ''pkg'' ''pkg'' [''index.d.ts'']
       = Inl (IllegalParentReference ''pkg'' ''index.d.ts'' ''../x.d.ts'')
   \<and> (\<exists>err. getModuleInfo firstStarted escapingPackage ''pkg'' ''pkg'' [''lib.d.ts'', ''index.d.ts'']
         = Inl err)
   \<and> escapes (dirname ''index.d.ts'') backslashParent \<and> hasWindowsSlashes backslashParent
   \<and> addReference ''index.d.ts'' (dirname ''index.d.ts'') ''pkg'' \<lparr>exact = True, text' = backslashParent\<rparr>
       = Inl (WindowsSlashes ''index.d.ts'' backslashParent)
   \<and> (\<exists>all'. allReferencedFiles firstStarted cyclicPackage ''pkg'' [''a.d.ts''] = Inr all'
         \<and> \<not> escapes (dirname ''b.d.ts'') ''./a'')
   \<and> textDetermines deepPackage ''pkg'' [''index.d.ts'']
   \<and> \<lparr>exact = False, text' = ''lib/a''\<rparr> \<in> reachable deepPackage ''pkg'' [''index.d.ts'']
   \<and> escapes (dirname ''lib/a.d.ts'') ''../../x.d.ts''
   \<and> (\<exists>err. getModuleInfo firstStarted deepPackage ''pkg'' ''pkg'' [''index.d.ts''] = Inl err)"
proof -
  let ?c = "emptyFile\<lparr>referencedFiles := [''../x.d.ts'']\<rparr>"
  let ?d = "emptyFile\<lparr>referencedFiles := [''../../x.d.ts'']\<rparr>"
  have dr: "\<lparr>exact = True, text' = ''../../x.d.ts''\<rparr>
      \<in> set (fst (rawReferences (createSourceFile ''lib/a.d.ts'' ?d)))"
    by (simp add: rawReferences_def createSourceFile_def emptyFile_def)
  note i3 = parent_reference_fails [where sched = firstStarted and fs = deepPackage
      and directory = "''pkg''" and packageName = "''pkg''" and entries = "[''index.d.ts'']"
      and origin = "\<lparr>exact = False, text' = ''lib/a''\<rparr>" and n = "''lib/a.d.ts''" and held = ?d
      and escaping = "\<lparr>exact = True, text' = ''../../x.d.ts''\<rparr>"]
  from i3 deep_textDetermines deep_imported deep_outgoing(3) dr escapes_deep
  have g5: "\<exists>err. getModuleInfo firstStarted deepPackage ''pkg'' ''pkg'' [''index.d.ts''] = Inl err"
    by simp
  have m: "map_of escapingPackage ''index.d.ts'' = Some ?c"
    by (simp add: escapingPackage_def)
  have w: "\<not> hasWindowsSlashes ''../x.d.ts''"
    by (simp add: hasWindowsSlashes_def backslash_def)
  have wb: "hasWindowsSlashes backslashParent"
    by (simp add: hasWindowsSlashes_def backslashParent_def)
  have rr: "\<lparr>exact = True, text' = ''../x.d.ts''\<rparr>
      \<in> set (fst (rawReferences (createSourceFile ''index.d.ts'' ?c)))"
    by (simp add: rawReferences_def createSourceFile_def emptyFile_def)
  have r: "\<lparr>exact = False, text' = ''./a''\<rparr>
      \<in> set (fst (rawReferences (createSourceFile ''b.d.ts'' (snd (cyclicPackage ! 1)))))"
    by (simp add: rawReferences_def createSourceFile_def cyclicPackage_def emptyFile_def startsWith_def)
  note i1 = parent_reference_fails [where sched = firstStarted and fs = escapingPackage
      and directory = "''pkg''" and packageName = "''pkg''"
      and entries = "[''lib.d.ts'', ''index.d.ts'']" and e = "''index.d.ts''" and content = ?c
      and r' = "\<lparr>exact = True, text' = ''../x.d.ts''\<rparr>" and t = "''../x.d.ts''" and others = "[]"
      and subDirectory = "dirname ''index.d.ts''" and f = "''index.d.ts''"
      and r = "\<lparr>exact = True, text' = backslashParent\<rparr>"]
  note i2 = parent_reference_fails [where sched = firstStarted and fs = cyclicPackage
      and directory = "''pkg''" and entries = "[''a.d.ts'']"
      and all' = "[(''a.d.ts'', createSourceFile ''a.d.ts'' (snd (cyclicPackage ! 0))),
        (''b.d.ts'', createSourceFile ''b.d.ts'' (snd (cyclicPackage ! 1)))]"]
  from i1 m w rr escapes_index
  have g1: "getModuleInfo firstStarted escapingPackage ''pkg'' ''pkg'' [''index.d.ts'']
       = Inl (IllegalParentReference ''pkg'' ''index.d.ts'' ''../x.d.ts'')"
    and g2: "\<exists>err. getModuleInfo firstStarted escapingPackage ''pkg'' ''pkg'' [''lib.d.ts'', ''index.d.ts'']
         = Inl err"
    by simp_all
  from i1 wb escapes_backslash
  have g3: "addReference ''index.d.ts'' (dirname ''index.d.ts'') ''pkg'' \<lparr>exact = True, text' = backslashParent\<rparr>
       = Inl (WindowsSlashes ''index.d.ts'' backslashParent)"
    by simp
  from i2 walk_cyclicPackage [of firstStarted]
  have "\<forall>r \<in> set (fst (rawReferences (createSourceFile ''b.d.ts'' (snd (cyclicPackage ! 1))))).
          \<not> escapes (dirname ''b.d.ts'') (text' r)"
    by simp
  with r have g4: "\<not> escapes (dirname ''b.d.ts'') ''./a''" by fastforce
  from g1 g2 g3 g4 g5 m w wb escapes_index escapes_backslash walk_cyclicPackage [of firstStarted]
    deep_textDetermines deep_imported escapes_deep
  show ?thesis by simp
qed


section \<open>The files the walk records\<close>

lemmas outgoing_defs = outgoing_def resolved_def walk_defs

lemma clash_reachable:
  "\<lparr>exact = False, text' = ''b.d.ts''\<rparr> \<in> reachable clashPackage ''pkg'' [''a.d.ts'']"
proof -
  have e: "\<lparr>exact = True, text' = ''a.d.ts''\<rparr> \<in> reachable clashPackage ''pkg'' [''a.d.ts'']"
    by (rule reachable.entry) simp
  have o: "outgoing clashPackage ''pkg'' \<lparr>exact = True, text' = ''a.d.ts''\<rparr>
         = Some [\<lparr>exact = True, text' = ''b.d.ts''\<rparr>, \<lparr>exact = False, text' = ''b.d.ts''\<rparr>]"
    by (simp add: outgoing_defs clashPackage_def)
  show ?thesis by (rule reachable.step [OF e o]) simp
qed

text \<open>
  C1 as stated fails when one text is met both as a path reference and as a module
  reference: references are told apart by their text alone, so the second of the two is
  skipped and the file it resolves to is not recorded. Here \<open>a.d.ts\<close> has a path
  reference to \<open>b.d.ts\<close> and imports \<open>./b.d.ts\<close>, which resolves to \<open>b.d.ts.d.ts\<close>; no
  reference leaves the package, and only one call is in flight at any time.
\<close>

theorem text_clash_counterexample:
  "allReferencedFiles firstStarted clashPackage ''pkg'' [''a.d.ts'']
     = Inr [(''a.d.ts'', createSourceFile ''a.d.ts'' (snd (clashPackage ! 0))),
            (''b.d.ts'', createSourceFile ''b.d.ts'' emptyFile)]
   \<and> ''b.d.ts.d.ts'' \<in> reachableFiles clashPackage ''pkg'' [''a.d.ts'']
   \<and> ''b.d.ts.d.ts'' \<notin> set [''a.d.ts'', ''b.d.ts'']
   \<and> insidePackage clashPackage"
proof -
  have "resolved clashPackage ''pkg'' \<lparr>exact = False, text' = ''b.d.ts''\<rparr>
          = Some (''b.d.ts.d.ts'', emptyFile)"
    by (simp add: outgoing_defs clashPackage_def)
  with clash_reachable have "''b.d.ts.d.ts'' \<in> reachableFiles clashPackage ''pkg'' [''a.d.ts'']"
    unfolding reachableFiles_def by blast
  moreover have "insidePackage clashPackage"
    by (simp add: insidePackage_def clashPackage_def rawReferences_def escapes_def walk_defs)
  ultimately show ?thesis using clash_walk [of firstStarted] by simp
qed

text \<open>
  C1, amended. The walk ends on every package and for every order in which the reads
  complete (\<open>recur\<close> is a total function for every scheduler), cyclic references
  included. It succeeds when every reachable reference resolves to a file that can be
  read and whose references can be collected: collecting its imports does not throw, and
  none of its references has a backslash in its text or escapes the package. When it
  succeeds, every recorded file is reachable and no file name is recorded twice; and
  when, besides, no text is met both as a path reference and as a module reference, the
  recorded file names are exactly the reachable files, and every reachable reference
  resolves as said.
\<close>

theorem walk_reaches_files:
  "(allResolve fs directory entries
      \<longrightarrow> (\<exists>all'. allReferencedFiles sched fs directory entries = Inr all'))
   \<and> (allReferencedFiles sched fs directory entries = Inr all'
      \<longrightarrow> fst ` set all' \<subseteq> reachableFiles fs directory entries \<and> distinct (map fst all'))
   \<and> (allReferencedFiles sched fs directory entries = Inr all' \<and> textDetermines fs directory entries
      \<longrightarrow> fst ` set all' = reachableFiles fs directory entries \<and> allResolve fs directory entries)"
proof -
  obtain seen inFlight where
    b: "beginAll ''tsconfig.json'' (entryReferences entries) ([], []) = (seen, inFlight)"
    by (cases "beginAll ''tsconfig.json'' (entryReferences entries) ([], [])")
  note ar = allReferencedFiles_recur [OF b, of sched fs directory]
  have a: "allResolve fs directory entries
      \<longrightarrow> (\<exists>all'. allReferencedFiles sched fs directory entries = Inr all')"
  proof
    assume "allResolve fs directory entries"
    from recur_succeeds [OF initial_sound [OF b] this, of sched]
    show "\<exists>all'. allReferencedFiles sched fs directory entries = Inr all'"
      by (auto simp: ar)
  qed
  have b': "allReferencedFiles sched fs directory entries = Inr all'
      \<longrightarrow> fst ` set all' \<subseteq> reachableFiles fs directory entries \<and> distinct (map fst all')"
  proof
    assume "allReferencedFiles sched fs directory entries = Inr all'"
    then obtain seen' where "recur sched fs directory (seen, []) inFlight = Inr (seen', all')"
      by (auto simp: ar)
    from recur_sound [OF this initial_sound [OF b]]
    have s: "walkSound fs directory entries (seen', all') []" .
    from sound_keys [OF s] s
    show "fst ` set all' \<subseteq> reachableFiles fs directory entries \<and> distinct (map fst all')"
      by (simp add: walkSound_def)
  qed
  have c: "allReferencedFiles sched fs directory entries = Inr all' \<and> textDetermines fs directory entries
      \<longrightarrow> fst ` set all' = reachableFiles fs directory entries \<and> allResolve fs directory entries"
  proof
    assume h: "allReferencedFiles sched fs directory entries = Inr all' \<and> textDetermines fs directory entries"
    with walk_complete [of sched fs directory entries all'] b'
    show "fst ` set all' = reachableFiles fs directory entries \<and> allResolve fs directory entries"
      by auto
  qed
  from a b' c show ?thesis by blast
qed

lemma cyclic_outgoing:
  "outgoing cyclicPackage ''pkg'' \<lparr>exact = True, text' = ''a.d.ts''\<rparr>
     = Some [\<lparr>exact = False, text' = ''b''\<rparr>]"
  "outgoing cyclicPackage ''pkg'' \<lparr>exact = False, text' = ''b''\<rparr>
     = Some [\<lparr>exact = False, text' = ''a''\<rparr>]"
  "outgoing cyclicPackage ''pkg'' \<lparr>exact = False, text' = ''a''\<rparr>
     = Some [\<lparr>exact = False, text' = ''b''\<rparr>]"
  by (simp_all add: outgoing_defs cyclicPackage_def)

lemma cyclic_reachable:
  "r \<in> reachable cyclicPackage ''pkg'' [''a.d.ts'']
   \<Longrightarrow> r \<in> {\<lparr>exact = True, text' = ''a.d.ts''\<rparr>, \<lparr>exact = False, text' = ''b''\<rparr>,
            \<lparr>exact = False, text' = ''a''\<rparr>}"
proof (induction rule: reachable.induct)
  case (entry filename)
  then show ?case by simp
next
  case (step r refs r')
  then show ?case using cyclic_outgoing by auto
qed

lemma cyclic_allResolve: "allResolve cyclicPackage ''pkg'' [''a.d.ts'']"
  unfolding allResolve_def
proof
  fix r assume "r \<in> reachable cyclicPackage ''pkg'' [''a.d.ts'']"
  with cyclic_reachable cyclic_outgoing have "outgoing cyclicPackage ''pkg'' r \<noteq> None"
    by fastforce
  then show "\<exists>n content. resolved cyclicPackage ''pkg'' r = Some (n, content) \<and> collectable n content"
    using outgoing_collectable [of cyclicPackage "''pkg''" r] by blast
qed

lemma cyclic_textDetermines: "textDetermines cyclicPackage ''pkg'' [''a.d.ts'']"
  unfolding textDetermines_def
proof (intro ballI impI)
  fix r r'
  assume "r \<in> reachable cyclicPackage ''pkg'' [''a.d.ts'']"
    "r' \<in> reachable cyclicPackage ''pkg'' [''a.d.ts'']" "text' r = text' r'"
  with cyclic_reachable [of r] cyclic_reachable [of r'] show "r = r'" by auto
qed

theorem walk_reaches_files_witness:
  "allResolve cyclicPackage ''pkg'' [''a.d.ts'']
   \<and> textDetermines cyclicPackage ''pkg'' [''a.d.ts'']
   \<and> allReferencedFiles firstStarted cyclicPackage ''pkg'' [''a.d.ts'']
       = Inr [(''a.d.ts'', createSourceFile ''a.d.ts'' (snd (cyclicPackage ! 0))),
              (''b.d.ts'', createSourceFile ''b.d.ts'' (snd (cyclicPackage ! 1)))]
   \<and> reachableFiles cyclicPackage ''pkg'' [''a.d.ts''] = {''a.d.ts'', ''b.d.ts''}"
  using walk_reaches_files [where sched = firstStarted and fs = cyclicPackage
      and directory = "''pkg''" and entries = "[''a.d.ts'']"
      and all' = "[(''a.d.ts'', createSourceFile ''a.d.ts'' (snd (cyclicPackage ! 0))),
              (''b.d.ts'', createSourceFile ''b.d.ts'' (snd (cyclicPackage ! 1)))]"]
    cyclic_allResolve cyclic_textDetermines walk_cyclicPackage [of firstStarted]
  by auto


end
